theory Spec2Isabelle
  imports Main "HOL-Library.Sublist"
begin

section \<open>Control flow of the coroutines\<close>

text \<open>
  Every external call of \<^verbatim>\<open>telegram_bot.py\<close> (database, Telegram SDK, file system,
  asyncio) either returns, raises an \<^verbatim>\<open>Exception\<close>, or is the suspension point at which
  the running task receives \<^verbatim>\<open>asyncio.CancelledError\<close>, which is a
  \<^verbatim>\<open>BaseException\<close> and so passes through \<^verbatim>\<open>except Exception\<close>.
\<close>

datatype outcome = Returns | Raises | Cancels

datatype 'a result = Val 'a | Exc | Cancel

type_synonym app = nat
type_synonym task = nat

datatype level = Info | Warning | Error

datatype reply =
    Access_denied | Welcome | Help_text
  | No_nodes | Nodes_list | No_tunnels | Tunnels_list | Panel_status
  | Creating_backup | Backup_failed | Backup_error | Backup_sent
  | Node_not_found | Node_info | Tunnel_not_found | Tunnel_info

text \<open>The calls the bot makes, in the order it makes them, form the trace of a run.\<close>

datatype call =
    Select_settings
  | Select_nodes
  | Select_tunnels
  | Select_node string
  | Select_tunnel string
  | Build_application string
  | Add_handler app string
  | Initialize app
  | Start_application app
  | Start_polling app
  | Updater_stop app
  | Stop_application app
  | Shutdown app
  | Create_task task
  | Cancel_task task
  | Await_task task
  | Sleep int
  | Create_backup
  | Mkdir string
  | Copy string string
  | Copytree string string
  | Zip_open string
  | Zip_write string
  | Rmtree string
  | Open_file string
  | Remove_file string
  | Send_document app int string
  | Answer_query
  | Reply_text reply
  | Reply_document string
  | Edit_message reply
  | Log level string

section \<open>Data\<close>

text \<open>The JSON object stored under the key \<^verbatim>\<open>telegram\<close>; any key may be missing.\<close>

record telegram_value =
  v_enabled :: "bool option"
  v_bot_token :: "string option"
  v_admin_ids :: "string list option"
  v_backup_enabled :: "bool option"
  v_backup_interval :: "int option"
  v_backup_interval_unit :: "string option"

text \<open>The fields of \<^verbatim>\<open>TelegramBot\<close>, as \<^verbatim>\<open>__init__\<close> declares them.\<close>

record bot =
  application :: "app option"
  enabled :: bool
  bot_token :: "string option"
  admin_ids :: "string list"
  backup_task :: "task option"
  backup_enabled :: bool
  backup_interval :: int
  backup_interval_unit :: string

definition init :: bot where
  "init = \<lparr> application = None, enabled = False, bot_token = None, admin_ids = [],
            backup_task = None, backup_enabled = False, backup_interval = 60,
            backup_interval_unit = ''minutes'' \<rparr>"

text \<open>
  What lies outside the object: the trace of calls made so far, the scheduler tasks that were
  created and have not finished, the allocator of object identities, the staging directory
  \<^verbatim>\<open>/tmp/smite_backup\<close> (\<open>None\<close> when it does not exist, otherwise its entries), the
  archive files under \<^verbatim>\<open>/tmp\<close>, and the state of the transport: the applications whose
  \<^verbatim>\<open>start()\<close> has returned and whose \<^verbatim>\<open>stop()\<close> has not, and the applications whose
  updater was told to poll (\<^verbatim>\<open>start_polling\<close> returned) and has not been stopped since.
\<close>

record world =
  trace :: "call list"
  live_tasks :: "task list"
  fresh :: nat
  staging :: "string list option"
  tmp_files :: "string list"
  started :: "app list"
  polling :: "app list"

definition world0 :: world where
  "world0 = \<lparr> trace = [], live_tasks = [], fresh = 0, staging = None, tmp_files = [],
              started = [], polling = [] \<rparr>"

type_synonym state = "bot \<times> world"

type_synonym 'a prog = "state \<Rightarrow> 'a result \<times> state"

text \<open>An entry of \<^verbatim>\<open>./data\<close> as \<^verbatim>\<open>iterdir\<close> lists it: name, \<^verbatim>\<open>is_file()\<close>, \<^verbatim>\<open>suffix\<close>.\<close>

record dir_item =
  item_name :: string
  item_is_file :: bool
  item_suffix :: string

text \<open>
  The environment answers each call. The number is the position of the call in the trace
  (for a read that leaves no event: the length of the trace at that moment), so the same call
  may be answered differently each time it is made.
\<close>

record env =
  telegram_available :: bool
  outcome_at :: "nat \<Rightarrow> call \<Rightarrow> outcome"
  settings_row_at :: "nat \<Rightarrow> telegram_value option"
  overwritten_at :: "nat \<Rightarrow> telegram_value option option"
  updater_running_at :: "nat \<Rightarrow> bool"
  bot_attr_at :: "nat \<Rightarrow> bool"
  int_of :: "string \<Rightarrow> int option"
  path_exists_at :: "nat \<Rightarrow> string \<Rightarrow> bool"
  cwd_join :: "string \<Rightarrow> string"
  node_cert_path :: string
  node_key_path :: string
  node_server_cert_path :: string
  node_server_key_path :: string
  data_items_at :: "nat \<Rightarrow> dir_item list"
  timestamp_at :: "nat \<Rightarrow> string"
  nodes_at :: "nat \<Rightarrow> string list"
  tunnels_at :: "nat \<Rightarrow> string list"
  found_at :: "nat \<Rightarrow> bool"

section \<open>Sequencing, \<^verbatim>\<open>try\<close>/\<^verbatim>\<open>except\<close>/\<^verbatim>\<open>finally\<close>\<close>

definition ret :: "'a \<Rightarrow> 'a prog" where
  "ret x s = (Val x, s)"

definition raise_exc :: "'a prog" where
  "raise_exc s = (Exc, s)"

definition andthen :: "'a prog \<Rightarrow> ('a \<Rightarrow> 'b prog) \<Rightarrow> 'b prog" where
  "andthen m f s = (case m s of
      (Val x, s') \<Rightarrow> f x s'
    | (Exc, s') \<Rightarrow> (Exc, s')
    | (Cancel, s') \<Rightarrow> (Cancel, s'))"

definition seq :: "'a prog \<Rightarrow> 'b prog \<Rightarrow> 'b prog" where
  "seq m n = andthen m (\<lambda>_. n)"

text \<open>\<^verbatim>\<open>try: body except Exception: handler\<close>\<close>

definition try_except :: "'a prog \<Rightarrow> 'a prog \<Rightarrow> 'a prog" where
  "try_except body handler s = (case body s of
      (Exc, s') \<Rightarrow> handler s'
    | (r, s') \<Rightarrow> (r, s'))"

text \<open>\<^verbatim>\<open>try: body except asyncio.CancelledError: handler\<close>\<close>

definition try_cancelled :: "'a prog \<Rightarrow> 'a prog \<Rightarrow> 'a prog" where
  "try_cancelled body handler s = (case body s of
      (Cancel, s') \<Rightarrow> handler s'
    | (r, s') \<Rightarrow> (r, s'))"

text \<open>\<^verbatim>\<open>try: body finally: fin\<close>: \<open>fin\<close> always runs; what it raises replaces the result.\<close>

definition try_finally :: "'a prog \<Rightarrow> unit prog \<Rightarrow> 'a prog" where
  "try_finally body fin s = (case body s of (r, s') \<Rightarrow>
      (case fin s' of
          (Val _, s'') \<Rightarrow> (r, s'')
        | (Exc, s'') \<Rightarrow> (Exc, s'')
        | (Cancel, s'') \<Rightarrow> (Cancel, s'')))"

fun for_each :: "'a list \<Rightarrow> ('a \<Rightarrow> unit prog) \<Rightarrow> unit prog" where
  "for_each [] f = ret ()"
| "for_each (x # xs) f = andthen (f x) (\<lambda>_. for_each xs f)"

section \<open>Primitive steps\<close>

definition get_bot :: "bot prog" where
  "get_bot s = (Val (fst s), s)"

definition get_world :: "world prog" where
  "get_world s = (Val (snd s), s)"

definition modify_bot :: "(bot \<Rightarrow> bot) \<Rightarrow> unit prog" where
  "modify_bot f s = (Val (), (f (fst s), snd s))"

definition modify_world :: "(world \<Rightarrow> world) \<Rightarrow> unit prog" where
  "modify_world f s = (Val (), (fst s, f (snd s)))"

definition now :: "nat prog" where
  "now s = (Val (length (trace (snd s))), s)"

definition emit :: "call \<Rightarrow> unit prog" where
  "emit c = modify_world (\<lambda>w. w\<lparr>trace := trace w @ [c]\<rparr>)"

definition log :: "level \<Rightarrow> string \<Rightarrow> unit prog" where
  "log l m = emit (Log l m)"

text \<open>An external call: it is recorded, and the environment decides how it ends.\<close>

definition perform :: "env \<Rightarrow> call \<Rightarrow> nat prog" where
  "perform e c s = (let k = length (trace (snd s)); s' = (fst s, (snd s)\<lparr>trace := trace (snd s) @ [c]\<rparr>) in
      case outcome_at e k c of
        Returns \<Rightarrow> (Val k, s')
      | Raises \<Rightarrow> (Exc, s')
      | Cancels \<Rightarrow> (Cancel, s'))"

definition do_call :: "env \<Rightarrow> call \<Rightarrow> unit prog" where
  "do_call e c = andthen (perform e c) (\<lambda>_. ret ())"

definition allocate :: "nat prog" where
  "allocate s = (Val (fresh (snd s)), (fst s, (snd s)\<lparr>fresh := Suc (fresh (snd s))\<rparr>))"

definition events_since :: "state \<Rightarrow> state \<Rightarrow> call list" where
  "events_since s s' = drop (length (trace (snd s))) (trace (snd s'))"

section \<open>Settings\<close>

definition get_or :: "'a option \<Rightarrow> 'a \<Rightarrow> 'a" where
  "get_or x d = (case x of None \<Rightarrow> d | Some y \<Rightarrow> y)"

text \<open>
  The assignments of \<^verbatim>\<open>load_settings\<close>. A row that is missing or whose value is falsy takes
  the \<^verbatim>\<open>else\<close> branch; an empty dictionary is falsy, and the \<^verbatim>\<open>else\<close> branch assigns
  the defaults that \<^verbatim>\<open>get\<close> gives for missing keys.
\<close>

definition store_settings :: "telegram_value option \<Rightarrow> bot \<Rightarrow> bot" where
  "store_settings row b = (case row of
      Some v \<Rightarrow> b\<lparr> enabled := get_or (v_enabled v) False,
                  bot_token := v_bot_token v,
                  admin_ids := get_or (v_admin_ids v) [],
                  backup_enabled := get_or (v_backup_enabled v) False,
                  backup_interval := get_or (v_backup_interval v) 60,
                  backup_interval_unit := get_or (v_backup_interval_unit v) ''minutes'' \<rparr>
    | None \<Rightarrow> b\<lparr> enabled := False,
                bot_token := None,
                admin_ids := [],
                backup_enabled := False,
                backup_interval := 60,
                backup_interval_unit := ''minutes'' \<rparr>)"

definition load_settings :: "env \<Rightarrow> unit prog" where
  "load_settings e = andthen (perform e Select_settings)
      (\<lambda>k. modify_bot (store_settings (settings_row_at e k)))"

section \<open>Access guard\<close>

definition digit_char :: "nat \<Rightarrow> char" where
  "digit_char n = char_of (48 + n)"

fun str_nat :: "nat \<Rightarrow> string" where
  "str_nat n = (if n < 10 then [digit_char n] else str_nat (n div 10) @ [digit_char (n mod 10)])"

declare str_nat.simps [simp del]

text \<open>Python's \<^verbatim>\<open>str\<close> on an integer.\<close>

definition str_int :: "int \<Rightarrow> string" where
  "str_int i = (if i < 0 then CHR ''-'' # str_nat (nat (- i)) else str_nat (nat i))"

definition is_admin :: "bot \<Rightarrow> int \<Rightarrow> bool" where
  "is_admin b user_id = (str_int user_id \<in> set (admin_ids b))"

section \<open>Session: start and stop\<close>

text \<open>
  Awaiting the task after \<^verbatim>\<open>cancel()\<close>: a task that was still running ends with
  \<^verbatim>\<open>CancelledError\<close>, which the \<^verbatim>\<open>await\<close> raises in the caller; a task that had already
  finished just hands back its result. Either way the task is finished afterwards.
\<close>

definition await_task :: "task \<Rightarrow> unit prog" where
  "await_task t s = (if t \<in> set (live_tasks (snd s)) then Cancel else Val (),
      (fst s, (snd s)\<lparr> trace := trace (snd s) @ [Await_task t],
                       live_tasks := removeAll t (live_tasks (snd s)) \<rparr>))"

definition stop_backup_task :: "unit prog" where
  "stop_backup_task = andthen get_bot (\<lambda>b.
      case backup_task b of
        None \<Rightarrow> ret ()
      | Some t \<Rightarrow>
          seq (emit (Cancel_task t))
         (seq (try_cancelled (await_task t) (ret ()))
         (seq (modify_bot (\<lambda>b. b\<lparr>backup_task := None\<rparr>))
              (log Info ''Automatic backup task stopped''))))"

text \<open>
  A call of the SDK that changes the state of the transport when it returns: the updater
  stops or starts polling, the application stops or starts.
\<close>

definition updater_stop :: "env \<Rightarrow> app \<Rightarrow> unit prog" where
  "updater_stop e a = seq (do_call e (Updater_stop a))
      (modify_world (\<lambda>w. w\<lparr>polling := removeAll a (polling w)\<rparr>))"

definition application_stop :: "env \<Rightarrow> app \<Rightarrow> unit prog" where
  "application_stop e a = seq (do_call e (Stop_application a))
      (modify_world (\<lambda>w. w\<lparr>started := removeAll a (started w)\<rparr>))"

definition application_start :: "env \<Rightarrow> app \<Rightarrow> unit prog" where
  "application_start e a = seq (do_call e (Start_application a))
      (modify_world (\<lambda>w. w\<lparr>started := started w @ [a]\<rparr>))"

definition start_polling :: "env \<Rightarrow> app \<Rightarrow> unit prog" where
  "start_polling e a = seq (do_call e (Start_polling a))
      (modify_world (\<lambda>w. w\<lparr>polling := polling w @ [a]\<rparr>))"

text \<open>The body of the \<^verbatim>\<open>try\<close> in \<^verbatim>\<open>stop\<close>.\<close>

definition teardown :: "env \<Rightarrow> app \<Rightarrow> unit prog" where
  "teardown e a = andthen now (\<lambda>k.
      seq (if updater_running_at e k then updater_stop e a else ret ())
     (seq (application_stop e a)
          (do_call e (Shutdown a))))"

definition stop :: "env \<Rightarrow> unit prog" where
  "stop e = seq stop_backup_task (andthen get_bot (\<lambda>b.
      case application b of
        None \<Rightarrow> ret ()
      | Some a \<Rightarrow>
          try_finally
            (try_except (teardown e a) (log Warning ''Error stopping Telegram bot''))
            (seq (modify_bot (\<lambda>b. b\<lparr>application := None\<rparr>))
                 (log Info ''Telegram bot stopped''))))"

text \<open>Creating the task: a new task object, alive from now on.\<close>

definition create_task :: "unit prog" where
  "create_task = andthen allocate (\<lambda>t.
      seq (emit (Create_task t))
     (seq (modify_world (\<lambda>w. w\<lparr>live_tasks := live_tasks w @ [t]\<rparr>))
          (modify_bot (\<lambda>b. b\<lparr>backup_task := Some t\<rparr>))))"

definition start_backup_task :: "env \<Rightarrow> unit prog" where
  "start_backup_task e =
      seq stop_backup_task
     (seq (load_settings e)
     (andthen get_bot (\<lambda>b.
        if backup_enabled b \<and> admin_ids b \<noteq> [] then
          seq create_task (log Info ''Automatic backup task started'')
        else ret ())))"

text \<open>Python's truth value of \<^verbatim>\<open>self.bot_token\<close>: neither \<^verbatim>\<open>None\<close> nor empty.\<close>

definition token_set :: "bot \<Rightarrow> bool" where
  "token_set b = (case bot_token b of None \<Rightarrow> False | Some t \<Rightarrow> t \<noteq> [])"

definition handler_names :: "string list" where
  "handler_names = [''start'', ''help'', ''nodes'', ''tunnels'', ''status'', ''backup'', ''callback'']"

text \<open>
  The body of the \<^verbatim>\<open>try\<close> in \<^verbatim>\<open>start\<close>: first the application object is built
  and stored, then \<open>run_application\<close> registers the handlers, starts it and starts the
  scheduler.
\<close>

definition run_application :: "env \<Rightarrow> app \<Rightarrow> bool prog" where
  "run_application e a =
      seq (for_each handler_names (\<lambda>h. do_call e (Add_handler a h)))
     (seq (do_call e (Initialize a))
     (seq (application_start e a)
     (seq (start_polling e a)
     (seq (start_backup_task e)
     (seq (log Info ''Telegram bot started successfully'')
          (ret True))))))"

definition bind_transport :: "env \<Rightarrow> bool prog" where
  "bind_transport e = andthen get_bot (\<lambda>b.
      seq (do_call e (Build_application (get_or (bot_token b) [])))
     (andthen allocate (\<lambda>a.
      seq (modify_bot (\<lambda>b. b\<lparr>application := Some a\<rparr>))
          (run_application e a))))"

definition start :: "env \<Rightarrow> bool prog" where
  "start e =
     (if \<not> telegram_available e then
        seq (log Error ''python-telegram-bot not available. Cannot start bot.'') (ret False)
      else
        seq (load_settings e) (andthen get_bot (\<lambda>b.
          if \<not> enabled b \<or> \<not> token_set b then
            seq (log Info ''Telegram bot not enabled or token not set'') (ret False)
          else
            seq (stop e)
              (try_except (bind_transport e)
                 (seq (log Error ''Failed to start Telegram bot'')
                 (seq (stop e) (ret False)))))))"

section \<open>Backup producer\<close>

definition staging_dir :: string where
  "staging_dir = ''/tmp/smite_backup''"

definition is_absolute :: "string \<Rightarrow> bool" where
  "is_absolute p = (case p of [] \<Rightarrow> False | c # _ \<Rightarrow> c = CHR ''/'')"

text \<open>
  A configured path that is not absolute is joined to the working directory:
  \<^verbatim>\<open>Path(os.getcwd()) / path\<close>. The joined path is the environment's \<open>cwd_join\<close>, which
  stands for what \<^verbatim>\<open>pathlib\<close> computes.
\<close>

definition resolve :: "env \<Rightarrow> string \<Rightarrow> string" where
  "resolve e p = (if is_absolute p then p else cwd_join e p)"

text \<open>An entry appears in the staging directory.\<close>

definition stage :: "string \<Rightarrow> unit prog" where
  "stage name = modify_world (\<lambda>w. w\<lparr>staging := Some (List.insert name (get_or (staging w) []))\<rparr>)"

definition make_staging :: "env \<Rightarrow> unit prog" where
  "make_staging e = seq (do_call e (Mkdir staging_dir))
      (modify_world (\<lambda>w. w\<lparr>staging := Some (get_or (staging w) [])\<rparr>))"

definition copy_if_exists :: "env \<Rightarrow> string \<Rightarrow> string \<Rightarrow> unit prog" where
  "copy_if_exists e src dst = andthen now (\<lambda>k.
      if path_exists_at e k src then
        seq (do_call e (Copy src (staging_dir @ ''/'' @ dst))) (stage dst)
      else ret ())"

definition copytree_if_exists :: "env \<Rightarrow> string \<Rightarrow> string \<Rightarrow> unit prog" where
  "copytree_if_exists e src dst = andthen now (\<lambda>k.
      if path_exists_at e k src then
        seq (do_call e (Copytree src (staging_dir @ ''/'' @ dst))) (stage dst)
      else ret ())"

definition copy_cert :: "env \<Rightarrow> string \<Rightarrow> string \<Rightarrow> string \<Rightarrow> unit prog" where
  "copy_cert e path subdir target = andthen now (\<lambda>k.
      if path_exists_at e k (resolve e path) then
        seq (do_call e (Mkdir (staging_dir @ ''/'' @ subdir)))
       (seq (stage subdir)
       (seq (do_call e (Copy (resolve e path) (staging_dir @ ''/'' @ subdir @ ''/'' @ target)))
            (stage (subdir @ ''/'' @ target))))
      else ret ())"

definition copy_data :: "env \<Rightarrow> unit prog" where
  "copy_data e = andthen now (\<lambda>k.
      if path_exists_at e k ''./data'' then
        seq (do_call e (Mkdir (staging_dir @ ''/data'')))
       (seq (stage ''data'')
       (andthen now (\<lambda>k'.
          for_each (data_items_at e k') (\<lambda>item.
            if item_is_file item \<and> item_suffix item \<in> set [''.json'', ''.yaml'', ''.toml''] then
              seq (do_call e (Copy (''./data/'' @ item_name item)
                                   (staging_dir @ ''/data/'' @ item_name item)))
                  (stage (''data/'' @ item_name item))
            else ret ()))))
      else ret ())"

definition write_archive :: "env \<Rightarrow> string option prog" where
  "write_archive e = andthen now (\<lambda>k.
      let backup_file = ''/tmp/smite_backup_'' @ timestamp_at e k @ ''.zip'' in
        seq (do_call e (Zip_open backup_file))
       (seq (modify_world (\<lambda>w. w\<lparr>tmp_files := List.insert backup_file (tmp_files w)\<rparr>))
       (seq (do_call e (Zip_write backup_file))
       (seq (do_call e (Rmtree staging_dir))
       (seq (modify_world (\<lambda>w. w\<lparr>staging := None\<rparr>))
            (ret (Some backup_file)))))))"

text \<open>The copies into the staging directory, source by source.\<close>

definition stage_sources :: "env \<Rightarrow> unit prog" where
  "stage_sources e =
      seq (copy_if_exists e ''./data/smite.db'' ''smite.db'')
     (seq (copy_if_exists e ''.env'' ''.env'')
     (seq (copy_if_exists e ''docker-compose.yml'' ''docker-compose.yml'')
     (seq (copytree_if_exists e ''./certs'' ''certs'')
     (seq (copy_cert e (node_cert_path e) ''node_certs'' ''ca.crt'')
     (seq (copy_cert e (node_key_path e) ''node_certs'' ''ca.key'')
     (seq (copy_cert e (node_server_cert_path e) ''server_certs'' ''ca-server.crt'')
     (seq (copy_cert e (node_server_key_path e) ''server_certs'' ''ca-server.key'')
          (copy_data e))))))))"

text \<open>The body of the \<^verbatim>\<open>try\<close> in \<^verbatim>\<open>create_backup\<close>.\<close>

definition stage_and_compress :: "env \<Rightarrow> string option prog" where
  "stage_and_compress e = seq (make_staging e) (seq (stage_sources e) (write_archive e))"

text \<open>The event \<open>Create_backup\<close> marks that the producer was entered.\<close>

definition create_backup :: "env \<Rightarrow> string option prog" where
  "create_backup e = seq (emit Create_backup)
      (try_except (stage_and_compress e)
         (seq (log Error ''Error creating backup'') (ret None)))"

text \<open>Python's truth value of the returned path.\<close>

definition truthy :: "string option \<Rightarrow> bool" where
  "truthy p = (case p of None \<Rightarrow> False | Some x \<Rightarrow> x \<noteq> [])"

definition remove_file :: "env \<Rightarrow> string \<Rightarrow> unit prog" where
  "remove_file e p = seq (do_call e (Remove_file p))
      (modify_world (\<lambda>w. w\<lparr>tmp_files := removeAll p (tmp_files w)\<rparr>))"

section \<open>Backup scheduler\<close>

definition sleep_seconds :: "bot \<Rightarrow> int" where
  "sleep_seconds b = (if backup_interval_unit b = ''hours'' then backup_interval b * 3600
                      else backup_interval b * 60)"

text \<open>
  \<^verbatim>\<open>asyncio.sleep\<close>: while the loop is suspended, another coroutine may run
  \<^verbatim>\<open>load_settings\<close> on the same object (\<^verbatim>\<open>start\<close> does, before it decides anything).
\<close>

definition sleep :: "env \<Rightarrow> int \<Rightarrow> unit prog" where
  "sleep e d = andthen (perform e (Sleep d)) (\<lambda>k.
      case overwritten_at e k of
        None \<Rightarrow> ret ()
      | Some row \<Rightarrow> modify_bot (store_settings row))"

text \<open>The body of the \<^verbatim>\<open>try\<close> for one administrator.\<close>

definition send_backup :: "env \<Rightarrow> app \<Rightarrow> string \<Rightarrow> string \<Rightarrow> unit prog" where
  "send_backup e a p admin_id_str = (case int_of e admin_id_str of
      None \<Rightarrow> raise_exc
    | Some admin_id \<Rightarrow> seq (do_call e (Open_file p)) (do_call e (Send_document a admin_id p)))"

definition dispatch_backup :: "env \<Rightarrow> app \<Rightarrow> string \<Rightarrow> string list \<Rightarrow> unit prog" where
  "dispatch_backup e a p ids =
      seq (for_each ids (\<lambda>admin_id_str.
             try_except (send_backup e a p admin_id_str)
               (log Error (''Failed to send backup to admin '' @ admin_id_str))))
     (seq (andthen get_world (\<lambda>w.
             if p \<in> set (tmp_files w) then remove_file e p else ret ()))
          (log Info ''Automatic backup sent successfully''))"

text \<open>The body of the inner \<^verbatim>\<open>try\<close> of the loop.\<close>

definition backup_and_dispatch :: "env \<Rightarrow> unit prog" where
  "backup_and_dispatch e = andthen (create_backup e) (\<lambda>backup_path.
      andthen get_bot (\<lambda>b. andthen now (\<lambda>k.
        case backup_path of
          None \<Rightarrow> ret ()
        | Some p \<Rightarrow>
           (case application b of
              None \<Rightarrow> ret ()
            | Some a \<Rightarrow>
                if p \<noteq> [] \<and> bot_attr_at e k then dispatch_backup e a p (admin_ids b)
                else ret ()))))"

text \<open>One pass through the body of \<^verbatim>\<open>while True\<close>.\<close>

definition cycle :: "env \<Rightarrow> unit prog" where
  "cycle e = seq (load_settings e) (andthen get_bot (\<lambda>b.
      if \<not> backup_enabled b \<or> admin_ids b = [] then sleep e 60
      else
        seq (sleep e (sleep_seconds b)) (andthen get_bot (\<lambda>b.
          if \<not> backup_enabled b then ret ()
          else try_except (backup_and_dispatch e)
                 (log Error ''Error in automatic backup'')))))"

text \<open>
  \<^verbatim>\<open>while True\<close> run for at most \<open>n\<close> passes: \<open>None\<close> says that the loop is still
  running after them, \<open>Some r\<close> that it was left with \<open>r\<close>.
\<close>

fun while_true :: "nat \<Rightarrow> unit prog \<Rightarrow> state \<Rightarrow> unit result option \<times> state" where
  "while_true 0 body s = (None, s)"
| "while_true (Suc n) body s = (case body s of
      (Val _, s') \<Rightarrow> while_true n body s'
    | (Exc, s') \<Rightarrow> (Some Exc, s')
    | (Cancel, s') \<Rightarrow> (Some Cancel, s'))"

text \<open>
  \<^verbatim>\<open>_backup_loop\<close>: the two handlers around the loop. \<^verbatim>\<open>CancelledError\<close> is logged and
  raised again; any other exception is logged and the coroutine returns.
\<close>

definition backup_loop :: "env \<Rightarrow> nat \<Rightarrow> state \<Rightarrow> unit result option \<times> state" where
  "backup_loop e n s = (case while_true n (cycle e) s of
      (None, s') \<Rightarrow> (None, s')
    | (Some Cancel, s') \<Rightarrow> (Some Cancel, snd (log Info ''Backup loop cancelled'' s'))
    | (Some Exc, s') \<Rightarrow> (Some (Val ()), snd (log Error ''Backup loop error'' s'))
    | (Some (Val u), s') \<Rightarrow> (Some (Val u), s'))"

section \<open>Command and callback handlers\<close>

definition cmd_start :: "env \<Rightarrow> int \<Rightarrow> unit prog" where
  "cmd_start e user_id = andthen get_bot (\<lambda>b.
      if \<not> is_admin b user_id then do_call e (Reply_text Access_denied)
      else do_call e (Reply_text Welcome))"

definition cmd_help :: "env \<Rightarrow> int \<Rightarrow> unit prog" where
  "cmd_help e user_id = andthen get_bot (\<lambda>b.
      if \<not> is_admin b user_id then do_call e (Reply_text Access_denied)
      else do_call e (Reply_text Help_text))"

definition cmd_nodes :: "env \<Rightarrow> int \<Rightarrow> unit prog" where
  "cmd_nodes e user_id = andthen get_bot (\<lambda>b.
      if \<not> is_admin b user_id then do_call e (Reply_text Access_denied)
      else andthen (perform e Select_nodes) (\<lambda>k.
        if nodes_at e k = [] then do_call e (Reply_text No_nodes)
        else do_call e (Reply_text Nodes_list)))"

definition cmd_tunnels :: "env \<Rightarrow> int \<Rightarrow> unit prog" where
  "cmd_tunnels e user_id = andthen get_bot (\<lambda>b.
      if \<not> is_admin b user_id then do_call e (Reply_text Access_denied)
      else andthen (perform e Select_tunnels) (\<lambda>k.
        if tunnels_at e k = [] then do_call e (Reply_text No_tunnels)
        else do_call e (Reply_text Tunnels_list)))"

definition cmd_status :: "env \<Rightarrow> int \<Rightarrow> unit prog" where
  "cmd_status e user_id = andthen get_bot (\<lambda>b.
      if \<not> is_admin b user_id then do_call e (Reply_text Access_denied)
      else seq (do_call e Select_nodes)
          (seq (do_call e Select_tunnels)
               (do_call e (Reply_text Panel_status))))"

definition cmd_backup :: "env \<Rightarrow> int \<Rightarrow> unit prog" where
  "cmd_backup e user_id = andthen get_bot (\<lambda>b.
      if \<not> is_admin b user_id then do_call e (Reply_text Access_denied)
      else
        seq (do_call e (Reply_text Creating_backup))
          (try_except
             (andthen (create_backup e) (\<lambda>backup_path.
                if truthy backup_path then
                  seq (do_call e (Open_file (get_or backup_path [])))
                 (seq (do_call e (Reply_document (get_or backup_path [])))
                      (remove_file e (get_or backup_path [])))
                else do_call e (Reply_text Backup_failed)))
             (seq (log Error ''Error creating backup'')
                  (do_call e (Reply_text Backup_error)))))"

definition show_node_info :: "env \<Rightarrow> string \<Rightarrow> unit prog" where
  "show_node_info e node_id = andthen (perform e (Select_node node_id)) (\<lambda>k.
      if \<not> found_at e k then do_call e (Edit_message Node_not_found)
      else do_call e (Edit_message Node_info))"

definition show_tunnel_info :: "env \<Rightarrow> string \<Rightarrow> unit prog" where
  "show_tunnel_info e tunnel_id = andthen (perform e (Select_tunnel tunnel_id)) (\<lambda>k.
      if \<not> found_at e k then do_call e (Edit_message Tunnel_not_found)
      else do_call e (Edit_message Tunnel_info))"

definition cmd_nodes_callback :: "env \<Rightarrow> unit prog" where
  "cmd_nodes_callback e = andthen (perform e Select_nodes) (\<lambda>k.
      if nodes_at e k = [] then do_call e (Edit_message No_nodes)
      else do_call e (Edit_message Nodes_list))"

definition cmd_tunnels_callback :: "env \<Rightarrow> unit prog" where
  "cmd_tunnels_callback e = andthen (perform e Select_tunnels) (\<lambda>k.
      if tunnels_at e k = [] then do_call e (Edit_message No_tunnels)
      else do_call e (Edit_message Tunnels_list))"

definition cmd_backup_callback :: "env \<Rightarrow> unit prog" where
  "cmd_backup_callback e =
      seq (do_call e (Edit_message Creating_backup))
        (try_except
           (andthen (create_backup e) (\<lambda>backup_path.
              if truthy backup_path then
                seq (do_call e (Open_file (get_or backup_path [])))
               (seq (do_call e (Reply_document (get_or backup_path [])))
               (seq (remove_file e (get_or backup_path []))
                    (do_call e (Edit_message Backup_sent))))
              else do_call e (Edit_message Backup_failed)))
           (seq (log Error ''Error creating backup'')
                (do_call e (Edit_message Backup_error))))"

definition cmd_status_callback :: "env \<Rightarrow> unit prog" where
  "cmd_status_callback e =
      seq (do_call e Select_nodes)
     (seq (do_call e Select_tunnels)
          (do_call e (Edit_message Panel_status)))"

definition startswith :: "string \<Rightarrow> string \<Rightarrow> bool" where
  "startswith s p = (take (length p) s = p)"

text \<open>\<^verbatim>\<open>s.replace(old, "")\<close>: every occurrence of \<open>old\<close> is removed, left to right.\<close>

function strip_all :: "string \<Rightarrow> string \<Rightarrow> string" where
  "strip_all old s =
     (if s = [] \<or> old = [] then s
      else if take (length old) s = old then strip_all old (drop (length old) s)
      else hd s # strip_all old (tl s))"
  by pat_completeness auto
termination
  by (relation "measure (\<lambda>(old, s). length s)") auto

declare strip_all.simps [simp del]

definition handle_callback :: "env \<Rightarrow> int \<Rightarrow> string \<Rightarrow> unit prog" where
  "handle_callback e user_id data =
      seq (do_call e Answer_query) (andthen get_bot (\<lambda>b.
        if \<not> is_admin b user_id then do_call e (Edit_message Access_denied)
        else if startswith data ''node_info_'' then
          show_node_info e (strip_all ''node_info_'' data)
        else if startswith data ''tunnel_info_'' then
          show_tunnel_info e (strip_all ''tunnel_info_'' data)
        else if data = ''cmd_nodes'' then cmd_nodes_callback e
        else if data = ''cmd_tunnels'' then cmd_tunnels_callback e
        else if data = ''cmd_backup'' then cmd_backup_callback e
        else if data = ''cmd_status'' then cmd_status_callback e
        else ret ()))"

text \<open>The entry points that \<^verbatim>\<open>start\<close> registers with the application.\<close>

datatype entry = Cmd_start | Cmd_help | Cmd_nodes | Cmd_tunnels | Cmd_status | Cmd_backup
  | Callback string

definition handle :: "env \<Rightarrow> entry \<Rightarrow> int \<Rightarrow> unit prog" where
  "handle e en user_id = (case en of
      Cmd_start \<Rightarrow> cmd_start e user_id
    | Cmd_help \<Rightarrow> cmd_help e user_id
    | Cmd_nodes \<Rightarrow> cmd_nodes e user_id
    | Cmd_tunnels \<Rightarrow> cmd_tunnels e user_id
    | Cmd_status \<Rightarrow> cmd_status e user_id
    | Cmd_backup \<Rightarrow> cmd_backup e user_id
    | Callback data \<Rightarrow> handle_callback e user_id data)"

text \<open>Calls that read the repository, and the mark of a call of the producer.\<close>

definition is_repository_call :: "call \<Rightarrow> bool" where
  "is_repository_call c = (case c of
      Select_nodes \<Rightarrow> True | Select_tunnels \<Rightarrow> True
    | Select_node _ \<Rightarrow> True | Select_tunnel _ \<Rightarrow> True
    | _ \<Rightarrow> False)"

definition is_producer_call :: "call \<Rightarrow> bool" where
  "is_producer_call c = (c = Create_backup)"

section \<open>Notions used in the statements\<close>

text \<open>A relation between the state before and the state after holds for every run.\<close>

definition preserves :: "(state \<Rightarrow> state \<Rightarrow> bool) \<Rightarrow> 'a prog \<Rightarrow> bool" where
  "preserves R p = (\<forall>s. R s (snd (p s)))"

definition grows :: "state \<Rightarrow> state \<Rightarrow> bool" where
  "grows s s' = prefix (trace (snd s)) (trace (snd s'))"


text \<open>The trace was extended by calls none of which satisfies \<open>P\<close>.\<close>

definition silent :: "(call \<Rightarrow> bool) \<Rightarrow> state \<Rightarrow> state \<Rightarrow> bool" where
  "silent P s s' = (\<exists>evs. trace (snd s') = trace (snd s) @ evs \<and> (\<forall>c\<in>set evs. \<not> P c))"

text \<open>The handles of the session and the live tasks are untouched.\<close>

definition same_session :: "state \<Rightarrow> state \<Rightarrow> bool" where
  "same_session s s' = (application (fst s') = application (fst s)
      \<and> backup_task (fst s') = backup_task (fst s)
      \<and> live_tasks (snd s') = live_tasks (snd s))"

text \<open>Every live scheduler task is the one the session holds.\<close>

definition session_ok :: "state \<Rightarrow> bool" where
  "session_ok s = (set (live_tasks (snd s)) \<subseteq> set_option (backup_task (fst s))
      \<and> distinct (live_tasks (snd s)))"

definition keeps_ok :: "state \<Rightarrow> state \<Rightarrow> bool" where
  "keeps_ok s s' = (session_ok s \<longrightarrow> session_ok s')"

definition same_application :: "state \<Rightarrow> state \<Rightarrow> bool" where
  "same_application s s' = (application (fst s') = application (fst s))"

text \<open>The session holds no application and no task, and no scheduler task is alive.\<close>

definition stopped :: "state \<Rightarrow> bool" where
  "stopped s = (application (fst s) = None \<and> backup_task (fst s) = None \<and> live_tasks (snd s) = [])"

definition is_log :: "call \<Rightarrow> bool" where
  "is_log c = (case c of Log _ _ \<Rightarrow> True | _ \<Rightarrow> False)"

definition is_build :: "call \<Rightarrow> bool" where
  "is_build c = (case c of Build_application _ \<Rightarrow> True | _ \<Rightarrow> False)"

definition task_calls :: "bot \<Rightarrow> call list" where
  "task_calls b = (case backup_task b of None \<Rightarrow> [] | Some t \<Rightarrow> [Cancel_task t, Await_task t])"

text \<open>The state that \<^verbatim>\<open>stop_backup_task\<close> leaves, written out.\<close>

definition task_stopped :: "state \<Rightarrow> state" where
  "task_stopped s = (case backup_task (fst s) of
      None \<Rightarrow> s
    | Some t \<Rightarrow> ((fst s)\<lparr>backup_task := None\<rparr>,
                 (snd s)\<lparr> trace := trace (snd s) @ [Cancel_task t, Await_task t,
                                       Log Info ''Automatic backup task stopped''],
                          live_tasks := removeAll t (live_tasks (snd s)) \<rparr>))"

text \<open>What \<^verbatim>\<open>stop\<close> does after the \<^verbatim>\<open>try\<close> body ended with \<open>r\<close> in state \<open>s2\<close>.\<close>

definition torn_down :: "unit result \<Rightarrow> state \<Rightarrow> unit result \<times> state" where
  "torn_down r s2 = (if r = Cancel then Cancel else Val (),
      ((fst s2)\<lparr>application := None\<rparr>,
       (snd s2)\<lparr>trace := trace (snd s2)
          @ (if r = Exc then [Log Warning ''Error stopping Telegram bot''] else [])
          @ [Log Info ''Telegram bot stopped'']\<rparr>))"

text \<open>What \<^verbatim>\<open>load_settings\<close> stores for a row, read off the row.\<close>

definition row_backup_enabled :: "telegram_value option \<Rightarrow> bool" where
  "row_backup_enabled row = (case row of None \<Rightarrow> False | Some v \<Rightarrow> get_or (v_backup_enabled v) False)"

definition row_admin_ids :: "telegram_value option \<Rightarrow> string list" where
  "row_admin_ids row = (case row of None \<Rightarrow> [] | Some v \<Rightarrow> get_or (v_admin_ids v) [])"

section \<open>Sample environments\<close>

definition row_on :: telegram_value where
  "row_on = \<lparr> v_enabled = Some True, v_bot_token = Some ''123:abc'',
              v_admin_ids = Some [''1'', ''2'', ''3''], v_backup_enabled = Some True,
              v_backup_interval = Some 2, v_backup_interval_unit = Some ''hours'' \<rparr>"

definition sample_int :: "string \<Rightarrow> int option" where
  "sample_int x = (if x = ''1'' then Some 1 else if x = ''2'' then Some 2
                   else if x = ''3'' then Some 3 else None)"

text \<open>Every call returns; the settings row is \<open>row_on\<close>; no backup source exists.\<close>

definition env0 :: env where
  "env0 = \<lparr> telegram_available = True,
             outcome_at = (\<lambda>k c. Returns),
             settings_row_at = (\<lambda>k. Some row_on),
             overwritten_at = (\<lambda>k. None),
             updater_running_at = (\<lambda>k. True),
             bot_attr_at = (\<lambda>k. True),
             int_of = sample_int,
             path_exists_at = (\<lambda>k p. False),
             cwd_join = (\<lambda>p. ''/app/'' @ p),
             node_cert_path = ''certs/ca.crt'',
             node_key_path = ''certs/ca.key'',
             node_server_cert_path = ''certs/ca-server.crt'',
             node_server_key_path = ''certs/ca-server.key'',
             data_items_at = (\<lambda>k. []),
             timestamp_at = (\<lambda>k. ''20240101_000000''),
             nodes_at = (\<lambda>k. []),
             tunnels_at = (\<lambda>k. []),
             found_at = (\<lambda>k. False) \<rparr>"

text \<open>A session that is running, and an environment in which stopping the application fails.\<close>

definition env_stop_fails :: env where
  "env_stop_fails = env0\<lparr>outcome_at := (\<lambda>k c. if c = Stop_application 1 then Raises else Returns)\<rparr>"

definition running_session :: state where
  "running_session = (init\<lparr>application := Some 1, backup_task := Some 0\<rparr>,
                      world0\<lparr>live_tasks := [0], fresh := 2\<rparr>)"

text \<open>No call of the run is the point at which the task is cancelled.\<close>

definition calm :: "env \<Rightarrow> bool" where
  "calm e = (\<forall>k c. outcome_at e k c \<noteq> Cancels)"

definition never_cancel :: "'a prog \<Rightarrow> bool" where
  "never_cancel p = (\<forall>s. fst (p s) \<noteq> Cancel)"

text \<open>Environments in which the database read, or the delivery and the removal, fail.\<close>

definition env_db_down :: env where
  "env_db_down = env0\<lparr>outcome_at := (\<lambda>k c. if c = Select_settings then Raises else Returns)\<rparr>"

definition env_send_fails :: env where
  "env_send_fails = env0\<lparr>outcome_at :=
      (\<lambda>k c. case c of Send_document _ _ _ \<Rightarrow> Raises | Remove_file _ \<Rightarrow> Raises | _ \<Rightarrow> Returns)\<rparr>"

text \<open>Environments in which the sleep fails, and in which the task is cancelled while it sleeps.\<close>

definition env_sleep_fails :: env where
  "env_sleep_fails = env0\<lparr>outcome_at := (\<lambda>k c. case c of Sleep _ \<Rightarrow> Raises | _ \<Rightarrow> Returns)\<rparr>"

definition env_sleep_cancelled :: env where
  "env_sleep_cancelled = env0\<lparr>outcome_at := (\<lambda>k c. case c of Sleep _ \<Rightarrow> Cancels | _ \<Rightarrow> Returns)\<rparr>"

section \<open>Notions for the teardown, the transport and the loop\<close>

text \<open>
  The calls of a list that are made when they are made in order and the first one that does not
  return ends the sequence; \<open>k\<close> is the position of the first call in the trace.
\<close>

fun attempted :: "env \<Rightarrow> nat \<Rightarrow> call list \<Rightarrow> call list" where
  "attempted e k [] = []"
| "attempted e k (c # cs) = c # (if outcome_at e k c = Returns then attempted e (Suc k) cs else [])"

text \<open>How such a sequence ends: with the outcome of the first call that does not return.\<close>

fun ending :: "env \<Rightarrow> nat \<Rightarrow> call list \<Rightarrow> outcome" where
  "ending e k [] = Returns"
| "ending e k (c # cs) = (if outcome_at e k c = Returns then ending e (Suc k) cs
                          else outcome_at e k c)"

text \<open>
  The teardown as the specification orders it: stop receiving updates (when the updater
  runs), stop the application, release its resources.
\<close>

definition teardown_calls :: "env \<Rightarrow> nat \<Rightarrow> app \<Rightarrow> call list" where
  "teardown_calls e k a = (if updater_running_at e k then [Updater_stop a] else [])
      @ [Stop_application a, Shutdown a]"

definition as_result :: "outcome \<Rightarrow> unit result" where
  "as_result x = (case x of Returns \<Rightarrow> Val () | Raises \<Rightarrow> Exc | Cancels \<Rightarrow> Cancel)"

text \<open>Every teardown call returns, and the updater reports that it runs.\<close>

definition orderly :: "env \<Rightarrow> bool" where
  "orderly e = ((\<forall>k a. outcome_at e k (Updater_stop a) = Returns
                      \<and> outcome_at e k (Stop_application a) = Returns
                      \<and> outcome_at e k (Shutdown a) = Returns)
               \<and> (\<forall>k. updater_running_at e k))"

text \<open>
  Every application that is started, and every application whose updater polls, is the one
  the session holds: no transport is bound besides it.
\<close>

definition transport_ok :: "state \<Rightarrow> bool" where
  "transport_ok s = (set (started (snd s)) \<subseteq> set_option (application (fst s))
      \<and> set (polling (snd s)) \<subseteq> set_option (application (fst s)))"

definition bound_to :: "app \<Rightarrow> state \<Rightarrow> bool" where
  "bound_to a s = (application (fst s) = Some a
      \<and> set (started (snd s)) \<subseteq> {a} \<and> set (polling (snd s)) \<subseteq> {a})"

definition keeps_bound_to :: "app \<Rightarrow> state \<Rightarrow> state \<Rightarrow> bool" where
  "keeps_bound_to a s s' = (bound_to a s \<longrightarrow> bound_to a s')"

definition same_transport :: "state \<Rightarrow> state \<Rightarrow> bool" where
  "same_transport s s' = (started (snd s') = started (snd s) \<and> polling (snd s') = polling (snd s)
      \<and> application (fst s') = application (fst s))"

text \<open>An environment in which stopping the updater fails.\<close>

definition env_updater_stop_fails :: env where
  "env_updater_stop_fails = env0\<lparr>outcome_at :=
      (\<lambda>k c. case c of Updater_stop _ \<Rightarrow> Raises | _ \<Rightarrow> Returns)\<rparr>"

text \<open>
  The state after the settings were loaded, the duration of the sleep a pass of the loop then
  makes, the state in which the loop wakes up, and a state with one more log line.
\<close>

definition loaded :: "env \<Rightarrow> state \<Rightarrow> state" where
  "loaded e s = (store_settings (settings_row_at e (length (trace (snd s)))) (fst s),
                 (snd s)\<lparr>trace := trace (snd s) @ [Select_settings]\<rparr>)"

definition nap :: "env \<Rightarrow> state \<Rightarrow> int" where
  "nap e s = (if \<not> backup_enabled (fst (loaded e s)) \<or> admin_ids (fst (loaded e s)) = [] then 60
              else sleep_seconds (fst (loaded e s)))"

definition woken :: "env \<Rightarrow> state \<Rightarrow> state" where
  "woken e s = ((case overwritten_at e (Suc (length (trace (snd s)))) of
                   None \<Rightarrow> fst (loaded e s)
                 | Some row \<Rightarrow> store_settings row (fst (loaded e s))),
                (snd s)\<lparr>trace := trace (snd s) @ [Select_settings, Sleep (nap e s)]\<rparr>)"

definition logged :: "level \<Rightarrow> string \<Rightarrow> state \<Rightarrow> state" where
  "logged l m s = (fst s, (snd s)\<lparr>trace := trace (snd s) @ [Log l m]\<rparr>)"

text \<open>The archive the sample environment produces, and a session with an application.\<close>

definition sample_archive :: string where
  "sample_archive = ''/tmp/smite_backup_20240101_000000.zip''"

definition bound_session :: state where
  "bound_session = (init\<lparr>application := Some 0\<rparr>, world0\<lparr>fresh := 1, started := [0], polling := [0]\<rparr>)"

section \<open>Notions for the producer and the dispatch\<close>

text \<open>A staging directory that exists is still there afterwards.\<close>

definition keeps_staging :: "state \<Rightarrow> state \<Rightarrow> bool" where
  "keeps_staging s s' = (staging (snd s) \<noteq> None \<longrightarrow> staging (snd s') \<noteq> None)"










section \<open>Compositional reasoning\<close>

lemmas prog_defs = ret_def raise_exc_def andthen_def seq_def try_except_def try_cancelled_def
  try_finally_def get_bot_def get_world_def modify_bot_def modify_world_def now_def emit_def
  log_def perform_def do_call_def allocate_def

lemmas transport_defs = updater_stop_def application_stop_def application_start_def
  start_polling_def

lemma preservesD: "preserves R p \<Longrightarrow> p s = (r, s') \<Longrightarrow> R s s'"
  unfolding preserves_def by (metis snd_conv)

lemma preserves_ret: "reflp R \<Longrightarrow> preserves R (ret x)"
  by (simp add: preserves_def ret_def reflpD)

lemma preserves_raise_exc: "reflp R \<Longrightarrow> preserves R raise_exc"
  by (simp add: preserves_def raise_exc_def reflpD)

lemma preserves_get_bot: "reflp R \<Longrightarrow> preserves R get_bot"
  by (simp add: preserves_def get_bot_def reflpD)

lemma preserves_get_world: "reflp R \<Longrightarrow> preserves R get_world"
  by (simp add: preserves_def get_world_def reflpD)

lemma preserves_now: "reflp R \<Longrightarrow> preserves R now"
  by (simp add: preserves_def now_def reflpD)

lemma preserves_andthen:
  assumes "transp R" and "preserves R m" and "\<And>x. preserves R (f x)"
  shows "preserves R (andthen m f)"
proof -
  have "R s (snd (andthen m f s))" for s
  proof -
    obtain r s' where Pair: "m s = (r, s')" by (metis prod.collapse)
    from assms(2) Pair have a: "R s s'" by (rule preservesD)
    show ?thesis
    proof (cases r)
      case (Val x)
      obtain r2 s2 where fx: "f x s' = (r2, s2)" by (cases "f x s'")
      from assms(3) fx have "R s' s2" by (rule preservesD)
      with a assms(1) have "R s s2" by (blast dest: transpD)
      with Pair Val fx show ?thesis by (simp add: andthen_def)
    qed (use Pair a in \<open>simp_all add: andthen_def\<close>)
  qed
  then show ?thesis by (simp add: preserves_def)
qed

lemma preserves_seq:
  "transp R \<Longrightarrow> preserves R m \<Longrightarrow> preserves R n \<Longrightarrow> preserves R (seq m n)"
  by (simp add: seq_def preserves_andthen)

lemma preserves_try_except:
  assumes "transp R" and "preserves R body" and "preserves R handler"
  shows "preserves R (try_except body handler)"
proof -
  have "R s (snd (try_except body handler s))" for s
  proof -
    obtain r s' where Pair: "body s = (r, s')" by (metis prod.collapse)
    from assms(2) Pair have a: "R s s'" by (rule preservesD)
    obtain r2 s2 where h: "handler s' = (r2, s2)" by (cases "handler s'")
    from assms(3) h have "R s' s2" by (rule preservesD)
    with a assms(1) have "R s s2" by (blast dest: transpD)
    with Pair a h show ?thesis by (cases r) (simp_all add: try_except_def)
  qed
  then show ?thesis by (simp add: preserves_def)
qed

lemma preserves_try_cancelled:
  assumes "transp R" and "preserves R body" and "preserves R handler"
  shows "preserves R (try_cancelled body handler)"
proof -
  have "R s (snd (try_cancelled body handler s))" for s
  proof -
    obtain r s' where Pair: "body s = (r, s')" by (metis prod.collapse)
    from assms(2) Pair have a: "R s s'" by (rule preservesD)
    obtain r2 s2 where h: "handler s' = (r2, s2)" by (cases "handler s'")
    from assms(3) h have "R s' s2" by (rule preservesD)
    with a assms(1) have "R s s2" by (blast dest: transpD)
    with Pair a h show ?thesis by (cases r) (simp_all add: try_cancelled_def)
  qed
  then show ?thesis by (simp add: preserves_def)
qed

lemma preserves_try_finally:
  assumes "transp R" and "preserves R body" and "preserves R fin"
  shows "preserves R (try_finally body fin)"
proof -
  have "R s (snd (try_finally body fin s))" for s
  proof -
    obtain r s' where Pair: "body s = (r, s')" by (metis prod.collapse)
    from assms(2) Pair have a: "R s s'" by (rule preservesD)
    obtain r2 s2 where h: "fin s' = (r2, s2)" by (cases "fin s'")
    from assms(3) h have "R s' s2" by (rule preservesD)
    with a assms(1) have "R s s2" by (blast dest: transpD)
    with Pair h show ?thesis by (cases r2) (simp_all add: try_finally_def)
  qed
  then show ?thesis by (simp add: preserves_def)
qed

lemma preserves_for_each:
  assumes "reflp R" and "transp R" and "\<And>x. preserves R (f x)"
  shows "preserves R (for_each xs f)"
  by (induction xs) (simp_all add: assms preserves_ret preserves_andthen)

lemma preserves_if:
  "preserves R p \<Longrightarrow> preserves R q \<Longrightarrow> preserves R (if c then p else q)"
  by simp

lemma preserves_case_option:
  "preserves R p \<Longrightarrow> (\<And>x. preserves R (q x)) \<Longrightarrow> preserves R (case v of None \<Rightarrow> p | Some x \<Rightarrow> q x)"
  by (cases v) simp_all

lemma preserves_modify_bot: "(\<And>b w. R (b, w) (f b, w)) \<Longrightarrow> preserves R (modify_bot f)"
  by (simp add: preserves_def modify_bot_def)

lemma preserves_modify_world: "(\<And>b w. R (b, w) (b, f w)) \<Longrightarrow> preserves R (modify_world f)"
  by (simp add: preserves_def modify_world_def)

lemma preserves_emit:
  "(\<And>b w. R (b, w) (b, w\<lparr>trace := trace w @ [c]\<rparr>)) \<Longrightarrow> preserves R (emit c)"
  by (simp add: preserves_def emit_def modify_world_def)

lemma preserves_log:
  "(\<And>b w. R (b, w) (b, w\<lparr>trace := trace w @ [Log l m]\<rparr>)) \<Longrightarrow> preserves R (log l m)"
  by (simp add: preserves_def log_def emit_def modify_world_def)

lemma preserves_perform:
  "(\<And>b w. R (b, w) (b, w\<lparr>trace := trace w @ [c]\<rparr>)) \<Longrightarrow> preserves R (perform e c)"
  by (simp add: preserves_def perform_def Let_def split: outcome.splits)

lemma preserves_do_call:
  "(\<And>b w. R (b, w) (b, w\<lparr>trace := trace w @ [c]\<rparr>)) \<Longrightarrow> preserves R (do_call e c)"
  by (simp add: preserves_def do_call_def andthen_def ret_def perform_def Let_def
      split: outcome.splits)

lemma preserves_allocate:
  "(\<And>b w. R (b, w) (b, w\<lparr>fresh := Suc (fresh w)\<rparr>)) \<Longrightarrow> preserves R allocate"
  by (simp add: preserves_def allocate_def)

lemma preserves_conj:
  "preserves R1 p \<Longrightarrow> preserves R2 p \<Longrightarrow> preserves (\<lambda>s s'. R1 s s' \<and> R2 s s') p"
  by (simp add: preserves_def)

lemmas preserves_prims = preserves_modify_bot preserves_modify_world preserves_emit preserves_log
  preserves_perform preserves_do_call preserves_allocate

lemmas preserves_intros = preserves_ret preserves_raise_exc preserves_get_bot preserves_get_world
  preserves_now preserves_andthen preserves_seq preserves_try_except preserves_try_cancelled
  preserves_try_finally preserves_for_each preserves_if preserves_case_option

lemma reflp_grows: "reflp grows"
  by (simp add: reflp_def grows_def)

lemma transp_grows: "transp grows"
  by (auto simp: transp_def grows_def)

lemma grows_modify_bot: "preserves grows (modify_bot f)"
  by (simp add: preserves_def grows_def modify_bot_def)
lemma grows_emit: "preserves grows (emit c)"
  by (simp add: preserves_def grows_def emit_def modify_world_def)
lemma grows_log: "preserves grows (log l m)"
  by (simp add: log_def grows_emit)
lemma grows_perform: "preserves grows (perform e c)"
  by (simp add: preserves_def grows_def perform_def Let_def split: outcome.splits)
lemma grows_do_call: "preserves grows (do_call e c)"
  by (simp add: do_call_def preserves_andthen preserves_ret grows_perform reflp_grows transp_grows)
lemma grows_allocate: "preserves grows allocate"
  by (simp add: preserves_def grows_def allocate_def)

lemmas grows_intros = reflp_grows transp_grows grows_modify_bot grows_emit grows_log grows_perform grows_do_call grows_allocate

lemma grows_create_backup: "preserves grows (create_backup e)"
  unfolding create_backup_def stage_and_compress_def stage_sources_def make_staging_def copy_if_exists_def
    copytree_if_exists_def copy_cert_def copy_data_def write_archive_def stage_def Let_def
  by (intro preserves_intros grows_intros; simp add: preserves_def grows_def modify_world_def)


lemma grows_backup_and_dispatch: "preserves grows (backup_and_dispatch e)"
  unfolding backup_and_dispatch_def dispatch_backup_def send_backup_def remove_file_def
  by (intro preserves_intros grows_intros grows_create_backup; simp add: preserves_def grows_def modify_world_def)

lemma backup_enabled_store [simp]:
  "backup_enabled (store_settings row b) = row_backup_enabled row"
  by (simp add: store_settings_def row_backup_enabled_def split: option.splits)

lemma admin_ids_store [simp]:
  "admin_ids (store_settings row b) = row_admin_ids row"
  by (simp add: store_settings_def row_admin_ids_def split: option.splits)

lemma preserves_snd: "preserves R p \<Longrightarrow> R s (snd (p s))"
  unfolding preserves_def by blast

lemma sleep_trace: "trace (snd (snd (sleep e d s))) = trace (snd s) @ [Sleep d]"
  by (simp add: sleep_def prog_defs Let_def split: outcome.splits option.splits)

lemma take_events_since:
  assumes "grows s1 s2" and "trace (snd s1) = trace (snd s) @ evs"
  shows "take (length evs) (events_since s s2) = evs"
  using assms by (auto simp: grows_def prefix_def events_since_def)

lemma cycle_sleeps:
  assumes "outcome_at e (length (trace (snd s))) Select_settings = Returns"
    and "row_backup_enabled (settings_row_at e (length (trace (snd s))))"
    and "row_admin_ids (settings_row_at e (length (trace (snd s)))) \<noteq> []"
  shows "take 2 (events_since s (snd (cycle e s))) =
     [Select_settings, Sleep (sleep_seconds (store_settings (settings_row_at e (length (trace (snd s)))) (fst s)))]"
proof -
  let ?b = "store_settings (settings_row_at e (length (trace (snd s)))) (fst s)"
  let ?s1 = "(?b, (snd s)\<lparr>trace := trace (snd s) @ [Select_settings]\<rparr>)"
  let ?d = "sleep_seconds ?b"
  let ?s2 = "snd (sleep e ?d ?s1)"
  have l: "load_settings e s = (Val (), ?s1)"
    using assms(1) by (simp add: load_settings_def prog_defs)
  have t2: "trace (snd ?s2) = trace (snd s) @ [Select_settings, Sleep ?d]"
    by (simp add: sleep_trace)
  have g: "preserves grows (try_except (backup_and_dispatch e) (log Error ''Error in automatic backup''))"
    by (intro preserves_intros grows_intros grows_backup_and_dispatch)
  have "grows ?s2 (snd (cycle e s))"
  proof (cases "sleep e ?d ?s1")
    case (fields r b2 w2)
    then show ?thesis
      using l assms(2,3) preserves_snd[OF g, of "(b2, w2)"]
      by (cases r) (simp_all add: cycle_def seq_def andthen_def get_bot_def ret_def grows_def)
  qed
  from take_events_since[OF this t2] show ?thesis by (simp add: numeral_2_eq_2)
qed








lemma start_disabled:
  assumes "telegram_available e"
    and "outcome_at e (length (trace (snd s))) Select_settings = Returns"
    and "\<not> enabled (store_settings (settings_row_at e (length (trace (snd s)))) (fst s))
       \<or> \<not> token_set (store_settings (settings_row_at e (length (trace (snd s)))) (fst s))"
  shows "fst (start e s) = Val False
     \<and> events_since s (snd (start e s)) = [Select_settings, Log Info ''Telegram bot not enabled or token not set'']
     \<and> application (fst (snd (start e s))) = application (fst s)
     \<and> backup_task (fst (snd (start e s))) = backup_task (fst s)
     \<and> live_tasks (snd (snd (start e s))) = live_tasks (snd s)"
proof -
  let ?b = "store_settings (settings_row_at e (length (trace (snd s)))) (fst s)"
  let ?s1 = "(?b, (snd s)\<lparr>trace := trace (snd s) @ [Select_settings]\<rparr>)"
  have l: "load_settings e s = (Val (), ?s1)"
    using assms(2) by (simp add: load_settings_def prog_defs)
  have k: "application ?b = application (fst s)" "backup_task ?b = backup_task (fst s)"
    by (simp_all add: store_settings_def split: option.splits)
  have "start e s = (Val False, (?b, (snd s)\<lparr>trace := trace (snd s) @ [Select_settings, Log Info ''Telegram bot not enabled or token not set'']\<rparr>))"
    using assms(1,3) l by (auto simp: start_def seq_def andthen_def get_bot_def log_def emit_def modify_world_def ret_def)
  then show ?thesis using k by (simp add: events_since_def)
qed


section \<open>Facts about stopping and starting\<close>

lemma stop_backup_task_eq: "stop_backup_task s = (Val (), task_stopped s)"
  by (simp add: stop_backup_task_def await_task_def task_stopped_def prog_defs split: option.splits)


lemma teardown_frame:
  "fst (snd (teardown e a s)) = fst s \<and> live_tasks (snd (snd (teardown e a s))) = live_tasks (snd s)
   \<and> fresh (snd (snd (teardown e a s))) = fresh (snd s)"
  by (simp add: teardown_def transport_defs prog_defs Let_def split: outcome.splits)

lemma teardown_trace:
  "\<exists>tear. trace (snd (snd (teardown e a s))) = trace (snd s) @ tear \<and>
     (prefix tear [Updater_stop a, Stop_application a, Shutdown a]
      \<or> prefix tear [Stop_application a, Shutdown a])"
  by (simp add: teardown_def transport_defs prog_defs Let_def split: outcome.splits)


lemma stop_eq:
  "stop e s = (case application (fst (task_stopped s)) of
      None \<Rightarrow> (Val (), task_stopped s)
    | Some a \<Rightarrow> torn_down (fst (teardown e a (task_stopped s))) (snd (teardown e a (task_stopped s))))"
proof (cases "application (fst (task_stopped s))")
  case None
  then show ?thesis
    by (simp add: stop_def seq_def andthen_def stop_backup_task_eq get_bot_def ret_def)
next
  case (Some a)
  obtain r s2 where t: "teardown e a (task_stopped s) = (r, s2)" by (metis prod.collapse)
  show ?thesis
    using Some t
    by (cases r) (simp_all add: stop_def seq_def andthen_def stop_backup_task_eq get_bot_def ret_def
        try_finally_def try_except_def log_def emit_def modify_world_def modify_bot_def torn_down_def)
qed

lemma application_task_stopped [simp]: "application (fst (task_stopped s)) = application (fst s)"
  by (simp add: task_stopped_def split: option.splits)

lemma backup_task_task_stopped [simp]: "backup_task (fst (task_stopped s)) = None"
  by (simp add: task_stopped_def split: option.splits)

lemma live_task_stopped: "backup_task (fst s) = Some t \<Longrightarrow> live_tasks (snd (task_stopped s)) = removeAll t (live_tasks (snd s))"
  by (simp add: task_stopped_def)

lemma stop_not_exc: "fst (stop e s) \<noteq> Exc"
  by (simp add: stop_eq torn_down_def split: option.splits)

lemma stop_clears: "application (fst (snd (stop e s))) = None \<and> backup_task (fst (snd (stop e s))) = None"
  by (simp add: stop_eq torn_down_def teardown_frame split: option.splits)

lemma stop_task_finished: "backup_task (fst s) = Some t \<Longrightarrow> t \<notin> set (live_tasks (snd (snd (stop e s))))"
  by (simp add: stop_eq torn_down_def teardown_frame live_task_stopped split: option.splits)

lemma stop_twice: "stop e' (snd (stop e s)) = (Val (), snd (stop e s))"
proof -
  have "application (fst (snd (stop e s))) = None" "backup_task (fst (snd (stop e s))) = None"
    using stop_clears by auto
  then show ?thesis by (simp add: stop_eq[of e'] task_stopped_def)
qed

lemma trace_task_stopped:
  "trace (snd (task_stopped s)) = trace (snd s) @ task_calls (fst s)
      @ (case backup_task (fst s) of None \<Rightarrow> [] | Some t \<Rightarrow> [Log Info ''Automatic backup task stopped''])"
  by (simp add: task_stopped_def task_calls_def split: option.splits)

lemma filter_prefix_nolog:
  "prefix tear xs \<Longrightarrow> \<forall>c\<in>set xs. \<not> is_log c \<Longrightarrow> filter (\<lambda>c. \<not> is_log c) tear = tear"
  by (auto simp: prefix_def)

lemma stop_order:
  "\<exists>tear. filter (\<lambda>c. \<not> is_log c) (events_since s (snd (stop e s))) = task_calls (fst s) @ tear \<and>
     (case application (fst s) of
        None \<Rightarrow> tear = []
      | Some a \<Rightarrow> prefix tear [Updater_stop a, Stop_application a, Shutdown a]
                \<or> prefix tear [Stop_application a, Shutdown a])"
proof (cases "application (fst s)")
  case None
  then show ?thesis
    by (simp add: stop_eq events_since_def trace_task_stopped is_log_def task_calls_def split: option.splits)
next
  case (Some a)
  obtain tear where t: "trace (snd (snd (teardown e a (task_stopped s)))) = trace (snd (task_stopped s)) @ tear"
    and p: "prefix tear [Updater_stop a, Stop_application a, Shutdown a] \<or> prefix tear [Stop_application a, Shutdown a]"
    using teardown_trace by blast
  have f: "filter (\<lambda>c. \<not> is_log c) tear = tear"
  proof -
    have "\<forall>c\<in>set [Updater_stop a, Stop_application a, Shutdown a]. \<not> is_log c"
      "\<forall>c\<in>set [Stop_application a, Shutdown a]. \<not> is_log c"
      by (simp_all add: is_log_def)
    with p show ?thesis using filter_prefix_nolog by blast
  qed
  have "filter (\<lambda>c. \<not> is_log c) (events_since s (snd (stop e s))) = task_calls (fst s) @ tear"
    using Some t f
    by (simp add: stop_eq torn_down_def events_since_def trace_task_stopped is_log_def task_calls_def split: option.splits)
  with p Some show ?thesis by auto
qed



lemma reflp_keeps_ok [simp]: "reflp keeps_ok"
  by (simp add: reflp_def keeps_ok_def)

lemma transp_keeps_ok [simp]: "transp keeps_ok"
  by (simp add: transp_def keeps_ok_def)

lemma reflp_same_application [simp]: "reflp same_application"
  by (simp add: reflp_def same_application_def)

lemma transp_same_application [simp]: "transp same_application"
  by (simp add: transp_def same_application_def)

lemma reflp_silent [simp]: "reflp (silent P)"
  by (simp add: reflp_def silent_def)

lemma transp_silent [simp]: "transp (silent P)"
  by (auto simp: transp_def silent_def)

lemma store_settings_handles [simp]:
  "application (store_settings row b) = application b"
  "backup_task (store_settings row b) = backup_task b"
  by (simp_all add: store_settings_def split: option.splits)

lemma removeAll_only: "set xs \<subseteq> {a} \<Longrightarrow> removeAll a xs = []"
  by (induction xs) auto

lemma session_ok_task_stopped:
  "session_ok s \<Longrightarrow> live_tasks (snd (task_stopped s)) = [] \<and> backup_task (fst (task_stopped s)) = None"
  by (cases "backup_task (fst s)") (auto simp: session_ok_def task_stopped_def removeAll_only)

lemma keeps_ok_stop_backup_task: "preserves keeps_ok stop_backup_task"
  using session_ok_task_stopped
  by (simp add: preserves_def keeps_ok_def stop_backup_task_eq session_ok_def del: split_paired_All)

lemma keeps_ok_load_settings: "preserves keeps_ok (load_settings e)"
  unfolding load_settings_def
  by (intro preserves_intros preserves_prims; simp add: keeps_ok_def session_ok_def)

lemma stop_stopped: "session_ok s \<Longrightarrow> stopped (snd (stop e s))"
  using session_ok_task_stopped[of s] stop_clears[of e s]
  by (simp add: stopped_def stop_eq torn_down_def teardown_frame split: option.splits)

lemma stopped_ok: "stopped s \<Longrightarrow> session_ok s"
  by (simp add: stopped_def session_ok_def)

lemma keeps_ok_stop: "preserves keeps_ok (stop e)"
  using stop_stopped stopped_ok by (simp add: preserves_def keeps_ok_def del: split_paired_All)

lemma create_task_ok:
  "live_tasks (snd s) = [] \<Longrightarrow> session_ok (snd (create_task s))"
  by (simp add: create_task_def prog_defs session_ok_def)

lemma keeps_ok_start_backup_task: "preserves keeps_ok (start_backup_task e)"
proof -
  have "session_ok (snd (start_backup_task e s))" if ok: "session_ok s" for s
  proof -
    let ?s1 = "task_stopped s"
    have s1: "live_tasks (snd ?s1) = []" "backup_task (fst ?s1) = None"
      using session_ok_task_stopped[OF ok] by auto
    obtain r s2 where l: "load_settings e ?s1 = (r, s2)" by (metis prod.collapse)
    have s2: "live_tasks (snd s2) = []" "backup_task (fst s2) = None"
      using l s1 by (auto simp: load_settings_def prog_defs Let_def split: outcome.splits)
    then have ok2: "session_ok s2" by (simp add: session_ok_def)
    have c: "session_ok (snd (seq create_task (log Info ''Automatic backup task started'') s2))"
      using s2(1) by (simp add: create_task_def prog_defs session_ok_def)
    show ?thesis
      using l ok2 c
      by (cases r) (simp_all add: start_backup_task_def seq_def[of stop_backup_task]
          seq_def[of "load_settings e"] andthen_def stop_backup_task_eq get_bot_def ret_def)
  qed
  then show ?thesis by (simp add: preserves_def keeps_ok_def del: split_paired_All)
qed

lemma keeps_ok_run_application: "preserves keeps_ok (run_application e a)"
  unfolding run_application_def transport_defs
  by (intro preserves_intros preserves_prims keeps_ok_start_backup_task;
      simp add: keeps_ok_def session_ok_def)

lemma keeps_ok_bind_transport: "preserves keeps_ok (bind_transport e)"
  unfolding bind_transport_def
  by (intro preserves_intros preserves_prims keeps_ok_run_application;
      simp add: keeps_ok_def session_ok_def)

lemma keeps_ok_start: "preserves keeps_ok (start e)"
  unfolding start_def
  by (intro preserves_intros preserves_prims keeps_ok_bind_transport keeps_ok_stop
      keeps_ok_load_settings; simp add: keeps_ok_def session_ok_def)

lemma session_ok_init: "session_ok (init, world0)"
  by (simp add: session_ok_def init_def world0_def)

lemma session_ok_start: "session_ok s \<Longrightarrow> session_ok (snd (start e s))"
  using preserves_snd[OF keeps_ok_start, of s e] by (simp add: keeps_ok_def)

lemma session_ok_one: "session_ok s \<Longrightarrow> length (live_tasks (snd s)) \<le> 1"
proof -
  assume ok: "session_ok s"
  then have "card (set (live_tasks (snd s))) \<le> card (set_option (backup_task (fst s)))"
    by (intro card_mono) (auto simp: session_ok_def)
  moreover have "card (set_option (backup_task (fst s))) \<le> 1"
    by (cases "backup_task (fst s)") simp_all
  moreover have "card (set (live_tasks (snd s))) = length (live_tasks (snd s))"
    using ok by (simp add: session_ok_def distinct_card)
  ultimately show ?thesis by simp
qed


lemma preserves_await_task:
  "(\<And>b w. R (b, w) (b, w\<lparr>trace := trace w @ [Await_task t],
                               live_tasks := removeAll t (live_tasks w)\<rparr>))
   \<Longrightarrow> preserves R (await_task t)"
  by (simp add: preserves_def await_task_def)

lemma silent_step: "\<not> P c \<Longrightarrow> silent P (b, w) (b', w\<lparr>trace := trace w @ [c]\<rparr>)"
  by (simp add: silent_def)

lemma silent_same: "trace w' = trace w \<Longrightarrow> silent P (b, w) (b', w')"
  by (simp add: silent_def)

lemma same_application_start_backup_task: "preserves same_application (start_backup_task e)"
  unfolding start_backup_task_def stop_backup_task_def create_task_def load_settings_def
  by (intro preserves_intros preserves_prims preserves_await_task;
      simp add: same_application_def)

lemma silent_build_start_backup_task: "preserves (silent is_build) (start_backup_task e)"
  unfolding start_backup_task_def stop_backup_task_def create_task_def load_settings_def
  by (intro preserves_intros preserves_prims preserves_await_task;
      simp add: silent_def is_build_def)

lemma same_application_run: "preserves same_application (run_application e a)"
  unfolding run_application_def transport_defs
  by (intro preserves_intros preserves_prims same_application_start_backup_task;
      simp add: same_application_def)

lemma silent_build_run: "preserves (silent is_build) (run_application e a)"
  unfolding run_application_def transport_defs
  by (intro preserves_intros preserves_prims silent_build_start_backup_task;
      simp add: silent_def is_build_def)

lemma bind_success:
  assumes "bind_transport e ss = (Val True, s2)"
  shows "application (fst s2) = Some (fresh (snd ss))
    \<and> (\<exists>evs. trace (snd s2) = trace (snd ss) @ evs
          \<and> filter is_build evs = [Build_application (get_or (bot_token (fst ss)) [])])"
proof -
  let ?c = "Build_application (get_or (bot_token (fst ss)) [])"
  let ?a = "fresh (snd ss)"
  let ?s4 = "((fst ss)\<lparr>application := Some ?a\<rparr>,
              (snd ss)\<lparr>trace := trace (snd ss) @ [?c], fresh := Suc (fresh (snd ss))\<rparr>)"
  have r: "run_application e ?a ?s4 = (Val True, s2)"
    using assms
    by (simp add: bind_transport_def prog_defs Let_def split: outcome.splits)
  have "same_application ?s4 s2" "silent is_build ?s4 s2"
    using preservesD[OF same_application_run r] preservesD[OF silent_build_run r] by auto
  then show ?thesis
    by (auto simp: same_application_def silent_def is_build_def filter_empty_conv)
qed

lemma start_success:
  assumes "start e s = (Val True, s2)"
  shows "bind_transport e (snd (stop e (snd (load_settings e s)))) = (Val True, s2)"
proof -
  obtain r1 s1 where l: "load_settings e s = (r1, s1)" by (metis prod.collapse)
  obtain r2 ss where st: "stop e s1 = (r2, ss)" by (metis prod.collapse)
  obtain r3 s3 where bt: "bind_transport e ss = (r3, s3)" by (metis prod.collapse)
  obtain r4 s4 where st2: "stop e (snd (log Error ''Failed to start Telegram bot'' s3)) = (r4, s4)"
    by (metis prod.collapse)
  have "r3 = Val True \<and> s3 = s2"
    using assms l st bt st2
    by (cases r1; cases r2; cases r3; cases r4)
       (simp_all add: start_def seq_def andthen_def try_except_def get_bot_def ret_def log_def
         emit_def modify_world_def split: if_splits)
  with l st bt show ?thesis by simp
qed

lemma load_settings_ok: "session_ok s \<Longrightarrow> session_ok (snd (load_settings e s))"
  using preserves_snd[OF keeps_ok_load_settings, of s e] by (simp add: keeps_ok_def)

lemma load_settings_trace: "trace (snd (snd (load_settings e s))) = trace (snd s) @ [Select_settings]"
  by (simp add: load_settings_def prog_defs Let_def split: outcome.splits)

lemma preserves_grows_stop: "preserves grows (stop e)"
  unfolding stop_def stop_backup_task_def teardown_def transport_defs
  by (intro preserves_intros preserves_prims preserves_await_task; simp add: reflp_grows transp_grows; simp add: grows_def)

lemma silent_build_stop: "preserves (silent is_build) (stop e)"
  unfolding stop_def stop_backup_task_def teardown_def transport_defs
  by (intro preserves_intros preserves_prims preserves_await_task;
      simp add: silent_def is_build_def)

lemma start_twice:
  fixes e1 e2
  defines "s1 \<equiv> snd (start e1 (init, world0))"
  defines "s2 \<equiv> snd (start e2 s1)"
  defines "sl \<equiv> snd (load_settings e2 s1)"
  defines "ss \<equiv> snd (stop e2 sl)"
  shows "length (live_tasks (snd s1)) \<le> 1 \<and> length (live_tasks (snd s2)) \<le> 1
    \<and> set (live_tasks (snd s2)) \<subseteq> set_option (backup_task (fst s2))
    \<and> (fst (start e2 s1) = Val True \<longrightarrow>
          application (fst ss) = None \<and> backup_task (fst ss) = None \<and> live_tasks (snd ss) = []
        \<and> bind_transport e2 ss = (Val True, s2)
        \<and> application (fst s2) = Some (fresh (snd ss))
        \<and> length (filter is_build (events_since s1 s2)) = 1)"
proof -
  have ok1: "session_ok s1" unfolding s1_def by (rule session_ok_start[OF session_ok_init])
  have ok2: "session_ok s2" unfolding s2_def by (rule session_ok_start[OF ok1])
  have okl: "session_ok sl" unfolding sl_def by (rule load_settings_ok[OF ok1])
  have st: "stopped ss" unfolding ss_def by (rule stop_stopped[OF okl])
  have a: "length (live_tasks (snd s1)) \<le> 1" "length (live_tasks (snd s2)) \<le> 1"
    using ok1 ok2 session_ok_one by auto
  have b: "set (live_tasks (snd s2)) \<subseteq> set_option (backup_task (fst s2))"
    using ok2 by (simp add: session_ok_def)
  have c: "bind_transport e2 ss = (Val True, s2) \<and> application (fst s2) = Some (fresh (snd ss))
        \<and> length (filter is_build (events_since s1 s2)) = 1"
    if t: "fst (start e2 s1) = Val True"
  proof -
    from t have "start e2 s1 = (Val True, s2)" unfolding s2_def by (metis prod.collapse)
    from start_success[OF this] have bt: "bind_transport e2 ss = (Val True, s2)"
      unfolding ss_def sl_def .
    note bs = bind_success[OF bt]
    have tl: "trace (snd sl) = trace (snd s1) @ [Select_settings]"
      unfolding sl_def by (rule load_settings_trace)
    have "silent is_build sl ss"
      unfolding ss_def by (rule preserves_snd[OF silent_build_stop])
    then obtain evs where evs: "trace (snd ss) = trace (snd sl) @ evs" "\<forall>c\<in>set evs. \<not> is_build c"
      by (auto simp: silent_def)
    from bs obtain evs2 where evs2: "trace (snd s2) = trace (snd ss) @ evs2"
      and fb: "filter is_build evs2 = [Build_application (get_or (bot_token (fst ss)) [])]"
      by blast
    have "events_since s1 s2 = Select_settings # evs @ evs2"
      using tl evs(1) evs2 by (simp add: events_since_def)
    then have "filter is_build (events_since s1 s2) = filter is_build evs2"
      using evs(2) by (simp add: is_build_def filter_empty_conv)
    with fb have "length (filter is_build (events_since s1 s2)) = 1" by simp
    with bs bt show ?thesis by simp
  qed
  from a b c st show ?thesis by (auto simp: stopped_def)
qed


lemma teardown_full:
  assumes "fst (teardown e a s) = Val ()"
  shows "trace (snd (snd (teardown e a s))) = trace (snd s)
      @ (if updater_running_at e (length (trace (snd s))) then [Updater_stop a] else [])
      @ [Stop_application a, Shutdown a]"
  using assms by (simp add: teardown_def transport_defs prog_defs Let_def split: outcome.splits if_splits)

lemma teardown_begins: "trace (snd (snd (teardown e a s))) \<noteq> trace (snd s)"
  by (simp add: teardown_def transport_defs prog_defs Let_def split: outcome.splits)

lemma stop_swallows:
  assumes "application (fst s) = Some a" and "fst (teardown e a (snd (stop_backup_task s))) = Exc"
  shows "fst (stop e s) = Val ()
     \<and> Log Warning ''Error stopping Telegram bot'' \<in> set (events_since s (snd (stop e s)))"
proof -
  obtain tear where t: "trace (snd (snd (teardown e a (task_stopped s)))) = trace (snd (task_stopped s)) @ tear"
    using teardown_trace by blast
  show ?thesis
    using assms t
    by (simp add: stop_eq stop_backup_task_eq torn_down_def events_since_def trace_task_stopped)
qed

lemma stop_order_full:
  "\<exists>tear. filter (\<lambda>c. \<not> is_log c) (events_since s (snd (stop e s))) = task_calls (fst s) @ tear \<and>
     (case application (fst s) of
        None \<Rightarrow> tear = []
      | Some a \<Rightarrow> tear \<noteq> []
          \<and> (prefix tear [Updater_stop a, Stop_application a, Shutdown a]
             \<or> prefix tear [Stop_application a, Shutdown a])
          \<and> (fst (teardown e a (snd (stop_backup_task s))) = Val () \<longrightarrow>
               tear = [Updater_stop a, Stop_application a, Shutdown a]
             \<or> tear = [Stop_application a, Shutdown a]))"
proof (cases "application (fst s)")
  case None
  then show ?thesis
    by (simp add: stop_eq events_since_def trace_task_stopped is_log_def task_calls_def split: option.splits)
next
  case (Some a)
  obtain tear where t: "trace (snd (snd (teardown e a (task_stopped s)))) = trace (snd (task_stopped s)) @ tear"
    and p: "prefix tear [Updater_stop a, Stop_application a, Shutdown a] \<or> prefix tear [Stop_application a, Shutdown a]"
    using teardown_trace by blast
  have ne: "tear \<noteq> []" using t teardown_begins[of e a "task_stopped s"] by auto
  have full: "tear = [Updater_stop a, Stop_application a, Shutdown a] \<or> tear = [Stop_application a, Shutdown a]"
    if "fst (teardown e a (task_stopped s)) = Val ()"
    using teardown_full[OF that] t by (auto split: if_splits)
  have f: "filter (\<lambda>c. \<not> is_log c) tear = tear"
  proof -
    have "\<forall>c\<in>set [Updater_stop a, Stop_application a, Shutdown a]. \<not> is_log c"
      "\<forall>c\<in>set [Stop_application a, Shutdown a]. \<not> is_log c"
      by (simp_all add: is_log_def)
    with p show ?thesis using filter_prefix_nolog by blast
  qed
  have "filter (\<lambda>c. \<not> is_log c) (events_since s (snd (stop e s))) = task_calls (fst s) @ tear"
    using Some t f
    by (simp add: stop_eq torn_down_def events_since_def trace_task_stopped is_log_def task_calls_def split: option.splits)
  with p Some ne full show ?thesis by (auto simp: stop_backup_task_eq)
qed

lemmas session_defs = start_def load_settings_def stop_def stop_backup_task_def teardown_def transport_defs
  await_task_def bind_transport_def run_application_def transport_defs start_backup_task_def create_task_def
  handler_names_def token_set_def store_settings_def get_or_def

lemma start_env0_twice: "fst (start env0 (snd (start env0 (init, world0)))) = Val True"
  by (simp add: session_defs env0_def row_on_def init_def world0_def prog_defs)

lemma fresh_after_restart_env0:
  "fresh (snd (snd (stop env0 (snd (load_settings env0 (snd (start env0 (init, world0)))))))) = 2"
  by (simp add: session_defs env0_def row_on_def init_def world0_def prog_defs)

section \<open>Facts about the handlers and the scheduler loop\<close>

lemma handle_denied:
  assumes "\<not> is_admin (fst s) user_id"
  shows "(\<forall>c\<in>set (events_since s (snd (handle e en user_id s))).
            \<not> is_repository_call c \<and> \<not> is_producer_call c)
    \<and> (case en of
          Callback d \<Rightarrow>
            events_since s (snd (handle e en user_id s)) = [Answer_query, Edit_message Access_denied]
          \<or> (events_since s (snd (handle e en user_id s)) = [Answer_query]
              \<and> outcome_at e (length (trace (snd s))) Answer_query \<noteq> Returns)
        | _ \<Rightarrow> events_since s (snd (handle e en user_id s)) = [Reply_text Access_denied])
    \<and> same_session s (snd (handle e en user_id s))"
  using assms
  by (cases en)
     (simp_all add: handle_def cmd_start_def cmd_help_def cmd_nodes_def cmd_tunnels_def
        cmd_status_def cmd_backup_def handle_callback_def prog_defs Let_def events_since_def
        is_repository_call_def is_producer_call_def same_session_def split: outcome.splits)

lemma never_cancelD: "never_cancel p \<Longrightarrow> fst (p s) \<noteq> Cancel"
  unfolding never_cancel_def by blast

lemma never_cancel_ret: "never_cancel (ret x)"
  by (simp add: never_cancel_def ret_def)

lemma never_cancel_raise_exc: "never_cancel raise_exc"
  by (simp add: never_cancel_def raise_exc_def)

lemma never_cancel_get_bot: "never_cancel get_bot"
  by (simp add: never_cancel_def get_bot_def)

lemma never_cancel_get_world: "never_cancel get_world"
  by (simp add: never_cancel_def get_world_def)

lemma never_cancel_now: "never_cancel now"
  by (simp add: never_cancel_def now_def)

lemma never_cancel_modify_bot: "never_cancel (modify_bot f)"
  by (simp add: never_cancel_def modify_bot_def)

lemma never_cancel_modify_world: "never_cancel (modify_world f)"
  by (simp add: never_cancel_def modify_world_def)

lemma never_cancel_emit: "never_cancel (emit c)"
  by (simp add: never_cancel_def emit_def modify_world_def)

lemma never_cancel_log: "never_cancel (log l m)"
  by (simp add: never_cancel_def log_def emit_def modify_world_def)

lemma never_cancel_perform: "calm e \<Longrightarrow> never_cancel (perform e c)"
  by (simp add: never_cancel_def calm_def perform_def Let_def split: outcome.splits)

lemma never_cancel_andthen:
  assumes "never_cancel m" and "\<And>x. never_cancel (f x)"
  shows "never_cancel (andthen m f)"
proof -
  have "fst (andthen m f s) \<noteq> Cancel" for s
  proof -
    obtain r s' where ms: "m s = (r, s')" by (metis prod.collapse)
    have "r \<noteq> Cancel" using never_cancelD[OF assms(1), of s] ms by simp
    then show ?thesis
      using ms never_cancelD[OF assms(2)] by (cases r) (simp_all add: andthen_def)
  qed
  then show ?thesis by (simp add: never_cancel_def del: split_paired_All)
qed

lemma never_cancel_seq: "never_cancel m \<Longrightarrow> never_cancel n \<Longrightarrow> never_cancel (seq m n)"
  by (simp add: seq_def never_cancel_andthen)

lemma never_cancel_do_call: "calm e \<Longrightarrow> never_cancel (do_call e c)"
  by (simp add: do_call_def never_cancel_andthen never_cancel_perform never_cancel_ret)

lemma never_cancel_try_except:
  assumes "never_cancel body" and "never_cancel handler"
  shows "never_cancel (try_except body handler)"
proof -
  have "fst (try_except body handler s) \<noteq> Cancel" for s
  proof -
    obtain r s' where ms: "body s = (r, s')" by (metis prod.collapse)
    have "r \<noteq> Cancel" using never_cancelD[OF assms(1), of s] ms by simp
    then show ?thesis
      using ms never_cancelD[OF assms(2)] by (cases r) (simp_all add: try_except_def)
  qed
  then show ?thesis by (simp add: never_cancel_def del: split_paired_All)
qed

lemma never_cancel_for_each:
  assumes "\<And>x. never_cancel (f x)"
  shows "never_cancel (for_each xs f)"
  by (induction xs) (simp_all add: assms never_cancel_ret never_cancel_andthen)

lemma never_cancel_if:
  "never_cancel p \<Longrightarrow> never_cancel q \<Longrightarrow> never_cancel (if c then p else q)"
  by simp

lemma never_cancel_case_option:
  "never_cancel p \<Longrightarrow> (\<And>x. never_cancel (q x))
   \<Longrightarrow> never_cancel (case v of None \<Rightarrow> p | Some x \<Rightarrow> q x)"
  by (cases v) simp_all

lemmas never_cancel_intros = never_cancel_ret never_cancel_raise_exc never_cancel_get_bot
  never_cancel_get_world never_cancel_now never_cancel_modify_bot never_cancel_modify_world
  never_cancel_emit never_cancel_log never_cancel_perform never_cancel_andthen never_cancel_seq
  never_cancel_do_call never_cancel_try_except never_cancel_for_each never_cancel_if
  never_cancel_case_option

lemma never_cancel_create_backup: "calm e \<Longrightarrow> never_cancel (create_backup e)"
  unfolding create_backup_def stage_and_compress_def stage_sources_def make_staging_def copy_if_exists_def
    copytree_if_exists_def copy_cert_def copy_data_def write_archive_def stage_def Let_def
  by (intro never_cancel_intros; assumption)

lemma never_cancel_backup_and_dispatch: "calm e \<Longrightarrow> never_cancel (backup_and_dispatch e)"
  unfolding backup_and_dispatch_def dispatch_backup_def send_backup_def remove_file_def
  by (intro never_cancel_intros never_cancel_create_backup; assumption)

lemma guarded_backup_returns:
  assumes "calm e"
  shows "fst (try_except (backup_and_dispatch e) (log Error ''Error in automatic backup'') s) = Val ()"
proof -
  obtain r s' where b: "backup_and_dispatch e s = (r, s')" by (metis prod.collapse)
  have "r \<noteq> Cancel" using never_cancelD[OF never_cancel_backup_and_dispatch[OF assms], of s] b by simp
  with b show ?thesis by (cases r) (simp_all add: try_except_def log_def emit_def modify_world_def)
qed

lemma guarded_backup_catches:
  assumes "backup_and_dispatch e s = (Exc, s')"
  shows "try_except (backup_and_dispatch e) (log Error ''Error in automatic backup'') s
     = (Val (), (fst s', (snd s')\<lparr>trace := trace (snd s') @ [Log Error ''Error in automatic backup'']\<rparr>))"
  using assms by (simp add: try_except_def log_def emit_def modify_world_def)

lemma cycle_returns:
  assumes "calm e" and "\<forall>k. outcome_at e k Select_settings \<noteq> Raises"
    and "\<forall>k d. outcome_at e k (Sleep d) \<noteq> Raises"
  shows "fst (cycle e s) = Val ()"
proof -
  have l: "outcome_at e k Select_settings = Returns" for k
    using assms(1,2) by (cases "outcome_at e k Select_settings") (auto simp: calm_def)
  have sl: "outcome_at e k (Sleep d) = Returns" for k d
    using assms(1,3) by (cases "outcome_at e k (Sleep d)") (auto simp: calm_def)
  show ?thesis
    using guarded_backup_returns[OF assms(1)]
    by (simp add: cycle_def load_settings_def sleep_def seq_def andthen_def perform_def get_bot_def
        modify_bot_def ret_def Let_def l sl split: option.splits)
qed

lemma while_true_goes_on:
  assumes "\<And>s. fst (body s) = Val ()"
  shows "fst (while_true n body s) = None"
proof (induction n arbitrary: s)
  case 0
  show ?case by simp
next
  case (Suc n)
  obtain r s' where b: "body s = (r, s')" by (metis prod.collapse)
  with assms[of s] have "r = Val ()" by simp
  with b Suc show ?case by simp
qed

lemma backup_loop_goes_on:
  assumes "calm e" and "\<forall>k. outcome_at e k Select_settings \<noteq> Raises"
    and "\<forall>k d. outcome_at e k (Sleep d) \<noteq> Raises"
  shows "fst (backup_loop e n s) = None"
proof -
  have "fst (while_true n (cycle e) s) = None"
    by (rule while_true_goes_on) (rule cycle_returns[OF assms])
  then show ?thesis
    by (cases "while_true n (cycle e) s") (simp add: backup_loop_def)
qed

lemma backup_loop_settings_failure:
  assumes "outcome_at e (length (trace (snd s))) Select_settings = Raises"
  shows "backup_loop e (Suc n) s = (Some (Val ()),
     (fst s, (snd s)\<lparr>trace := trace (snd s) @ [Select_settings, Log Error ''Backup loop error'']\<rparr>))"
  using assms
  by (simp add: backup_loop_def cycle_def load_settings_def seq_def andthen_def perform_def
      Let_def log_def emit_def modify_world_def)

lemma backup_loop_cancelled:
  assumes "outcome_at e (length (trace (snd s))) Select_settings = Cancels"
  shows "backup_loop e (Suc n) s = (Some Cancel,
     (fst s, (snd s)\<lparr>trace := trace (snd s) @ [Select_settings, Log Info ''Backup loop cancelled'']\<rparr>))"
  using assms
  by (simp add: backup_loop_def cycle_def load_settings_def seq_def andthen_def perform_def
      Let_def log_def emit_def modify_world_def)

section \<open>Facts about the teardown, the transport and a pass of the loop\<close>

lemma teardown_exact:
  "fst (teardown e a s) = as_result (ending e (length (trace (snd s)))
                                      (teardown_calls e (length (trace (snd s))) a))
   \<and> trace (snd (snd (teardown e a s))) = trace (snd s)
        @ attempted e (length (trace (snd s))) (teardown_calls e (length (trace (snd s))) a)"
  by (cases "updater_running_at e (length (trace (snd s)))")
     (simp_all add: teardown_def transport_defs prog_defs Let_def teardown_calls_def as_result_def
        split: outcome.splits)

lemma stop_events_exact:
  "events_since s (snd (stop e s)) =
     (case backup_task (fst s) of
        None \<Rightarrow> []
      | Some t \<Rightarrow> [Cancel_task t, Await_task t, Log Info ''Automatic backup task stopped''])
     @ (case application (fst s) of
          None \<Rightarrow> []
        | Some a \<Rightarrow>
            attempted e (length (trace (snd (snd (stop_backup_task s)))))
              (teardown_calls e (length (trace (snd (snd (stop_backup_task s))))) a)
            @ (if ending e (length (trace (snd (snd (stop_backup_task s)))))
                    (teardown_calls e (length (trace (snd (snd (stop_backup_task s))))) a) = Raises
               then [Log Warning ''Error stopping Telegram bot''] else [])
            @ [Log Info ''Telegram bot stopped''])"
proof (cases "application (fst s)")
  case None
  then show ?thesis
    by (simp add: stop_eq events_since_def trace_task_stopped task_calls_def split: option.splits)
next
  case (Some a)
  let ?k = "length (trace (snd (task_stopped s)))"
  note te = teardown_exact[of e a "task_stopped s"]
  show ?thesis
    using Some te
    by (cases "ending e ?k (teardown_calls e ?k a)")
       (simp_all add: stop_eq stop_backup_task_eq torn_down_def events_since_def trace_task_stopped
          task_calls_def as_result_def split: option.splits)
qed

lemma stop_result_exact:
  "fst (stop e s) =
     (case application (fst s) of
        None \<Rightarrow> Val ()
      | Some a \<Rightarrow>
          if ending e (length (trace (snd (snd (stop_backup_task s)))))
               (teardown_calls e (length (trace (snd (snd (stop_backup_task s))))) a) = Cancels
          then Cancel else Val ())"
proof (cases "application (fst s)")
  case None
  then show ?thesis by (simp add: stop_eq)
next
  case (Some a)
  let ?k = "length (trace (snd (task_stopped s)))"
  note te = teardown_exact[of e a "task_stopped s"]
  show ?thesis
    using Some te
    by (cases "ending e ?k (teardown_calls e ?k a)")
       (simp_all add: stop_eq stop_backup_task_eq torn_down_def as_result_def)
qed

lemma stop_order_exact:
  "\<exists>tear. filter (\<lambda>c. \<not> is_log c) (events_since s (snd (stop e s))) = task_calls (fst s) @ tear \<and>
     (case application (fst s) of
        None \<Rightarrow> tear = []
      | Some a \<Rightarrow> tear \<noteq> []
          \<and> tear = attempted e (length (trace (snd (snd (stop_backup_task s)))))
                     (teardown_calls e (length (trace (snd (snd (stop_backup_task s))))) a)
          \<and> (prefix tear [Updater_stop a, Stop_application a, Shutdown a]
             \<or> prefix tear [Stop_application a, Shutdown a])
          \<and> (fst (teardown e a (snd (stop_backup_task s))) = Val () \<longrightarrow>
               tear = [Updater_stop a, Stop_application a, Shutdown a]
             \<or> tear = [Stop_application a, Shutdown a]))"
proof -
  from stop_order_full[of s e] obtain tear where
    f: "filter (\<lambda>c. \<not> is_log c) (events_since s (snd (stop e s))) = task_calls (fst s) @ tear"
    and c: "case application (fst s) of
        None \<Rightarrow> tear = []
      | Some a \<Rightarrow> tear \<noteq> []
          \<and> (prefix tear [Updater_stop a, Stop_application a, Shutdown a]
             \<or> prefix tear [Stop_application a, Shutdown a])
          \<and> (fst (teardown e a (snd (stop_backup_task s))) = Val () \<longrightarrow>
               tear = [Updater_stop a, Stop_application a, Shutdown a]
             \<or> tear = [Stop_application a, Shutdown a])"
    by blast
  have "tear = attempted e (length (trace (snd (snd (stop_backup_task s)))))
                     (teardown_calls e (length (trace (snd (snd (stop_backup_task s))))) a)"
    if a: "application (fst s) = Some a" for a
  proof -
    let ?k = "length (trace (snd (snd (stop_backup_task s))))"
    have nl: "filter (\<lambda>c. \<not> is_log c) (attempted e ?k (teardown_calls e ?k a))
        = attempted e ?k (teardown_calls e ?k a)"
      by (simp add: teardown_calls_def is_log_def)
    have "filter (\<lambda>c. \<not> is_log c) (events_since s (snd (stop e s)))
        = task_calls (fst s) @ attempted e ?k (teardown_calls e ?k a)"
      unfolding stop_events_exact using a nl
      by (simp add: task_calls_def is_log_def split: option.splits)
    with f show ?thesis by simp
  qed
  with f c show ?thesis by (cases "application (fst s)") auto
qed

lemma reflp_same_transport [simp]: "reflp same_transport"
  by (simp add: reflp_def same_transport_def)

lemma transp_same_transport [simp]: "transp same_transport"
  by (simp add: transp_def same_transport_def)

lemma reflp_keeps_bound_to [simp]: "reflp (keeps_bound_to a)"
  by (simp add: reflp_def keeps_bound_to_def)

lemma transp_keeps_bound_to [simp]: "transp (keeps_bound_to a)"
  by (simp add: transp_def keeps_bound_to_def)

lemma same_transport_start_backup_task: "preserves same_transport (start_backup_task e)"
  unfolding start_backup_task_def stop_backup_task_def create_task_def load_settings_def
  by (intro preserves_intros preserves_prims preserves_await_task;
      simp add: same_transport_def)

lemma same_transport_load_settings: "preserves same_transport (load_settings e)"
  unfolding load_settings_def
  by (intro preserves_intros preserves_prims; simp add: same_transport_def)

lemma keeps_bound_to_start_backup_task: "preserves (keeps_bound_to a) (start_backup_task e)"
proof -
  have "keeps_bound_to a s (snd (start_backup_task e s))" for s
    using preserves_snd[OF same_transport_start_backup_task, of s e]
    by (simp add: keeps_bound_to_def bound_to_def same_transport_def)
  then show ?thesis unfolding preserves_def by blast
qed

lemma keeps_bound_to_run: "preserves (keeps_bound_to a) (run_application e a)"
  unfolding run_application_def transport_defs
  by (intro preserves_intros preserves_prims keeps_bound_to_start_backup_task;
      simp add: keeps_bound_to_def bound_to_def)

lemma task_stopped_transport [simp]:
  "started (snd (task_stopped s)) = started (snd s)"
  "polling (snd (task_stopped s)) = polling (snd s)"
  by (simp_all add: task_stopped_def split: option.splits)

lemma teardown_orderly:
  assumes "orderly e"
  shows "fst (teardown e a s) = Val ()
    \<and> started (snd (snd (teardown e a s))) = removeAll a (started (snd s))
    \<and> polling (snd (snd (teardown e a s))) = removeAll a (polling (snd s))"
  using assms
  by (simp add: orderly_def teardown_def transport_defs prog_defs Let_def)

lemma stop_orderly:
  assumes "orderly e" and "transport_ok s"
  shows "fst (stop e s) = Val () \<and> started (snd (snd (stop e s))) = []
     \<and> polling (snd (snd (stop e s))) = [] \<and> application (fst (snd (stop e s))) = None"
proof (cases "application (fst s)")
  case None
  then show ?thesis using assms(2) by (simp add: stop_eq transport_ok_def)
next
  case (Some a)
  have "removeAll a (started (snd s)) = []" "removeAll a (polling (snd s)) = []"
    using assms(2) Some by (simp_all add: transport_ok_def removeAll_only)
  then show ?thesis
    using Some teardown_orderly[OF assms(1), of a "task_stopped s"]
    by (simp add: stop_eq torn_down_def)
qed

lemma bind_transport_ok:
  assumes "application (fst s) = None" and "started (snd s) = []" and "polling (snd s) = []"
  shows "transport_ok (snd (bind_transport e s))"
proof -
  let ?c = "Build_application (get_or (bot_token (fst s)) [])"
  let ?a = "fresh (snd s)"
  let ?s4 = "((fst s)\<lparr>application := Some ?a\<rparr>,
              (snd s)\<lparr>trace := trace (snd s) @ [?c], fresh := Suc (fresh (snd s))\<rparr>)"
  have b4: "bound_to ?a ?s4" using assms by (simp add: bound_to_def)
  have "bound_to ?a (snd (run_application e ?a ?s4))"
    using preserves_snd[OF keeps_bound_to_run, of ?a ?s4 e] b4 by (simp add: keeps_bound_to_def)
  then have ok: "transport_ok (snd (run_application e ?a ?s4))"
    by (simp add: bound_to_def transport_ok_def)
  show ?thesis
  proof (cases "outcome_at e (length (trace (snd s))) ?c")
    case Returns
    then have "bind_transport e s = run_application e ?a ?s4"
      by (simp add: bind_transport_def prog_defs Let_def)
    with ok show ?thesis by simp
  next
    case Raises
    then show ?thesis using assms
      by (simp add: bind_transport_def prog_defs Let_def transport_ok_def)
  next
    case Cancels
    then show ?thesis using assms
      by (simp add: bind_transport_def prog_defs Let_def transport_ok_def)
  qed
qed

lemma load_settings_transport_ok: "transport_ok s \<Longrightarrow> transport_ok (snd (load_settings e s))"
  using preserves_snd[OF same_transport_load_settings, of s e]
  by (simp add: transport_ok_def same_transport_def)

lemma start_transport_ok:
  assumes "orderly e" and "transport_ok s"
  shows "transport_ok (snd (start e s))"
proof (cases "telegram_available e")
  case False
  then show ?thesis using assms(2)
    by (simp add: start_def seq_def andthen_def log_def emit_def modify_world_def ret_def
        transport_ok_def)
next
  case True
  obtain r1 s1 where l: "load_settings e s = (r1, s1)" by (metis prod.collapse)
  have ok1: "transport_ok s1" using load_settings_transport_ok[OF assms(2), of e] l by simp
  show ?thesis
  proof (cases r1)
    case (Val u)
    show ?thesis
    proof (cases "\<not> enabled (fst s1) \<or> \<not> token_set (fst s1)")
      case True
      then show ?thesis
        using \<open>telegram_available e\<close> l Val ok1
        by (auto simp: start_def seq_def andthen_def get_bot_def log_def emit_def modify_world_def
            ret_def transport_ok_def)
    next
      case False
      obtain r2 ss where st: "stop e s1 = (r2, ss)" by (metis prod.collapse)
      have so: "r2 = Val ()" "started (snd ss) = []" "polling (snd ss) = []"
        "application (fst ss) = None"
        using stop_orderly[OF assms(1) ok1] st by auto
      obtain r3 s3 where bt: "bind_transport e ss = (r3, s3)" by (metis prod.collapse)
      have ok3: "transport_ok s3" using bind_transport_ok[OF so(4,2,3), of e] bt by simp
      let ?s3' = "snd (log Error ''Failed to start Telegram bot'' s3)"
      have ok3': "transport_ok ?s3'"
        using ok3 by (simp add: log_def emit_def modify_world_def transport_ok_def)
      obtain r4 s4 where st2: "stop e ?s3' = (r4, s4)" by (metis prod.collapse)
      have so4: "transport_ok s4"
        using stop_orderly[OF assms(1) ok3'] st2 by (simp add: transport_ok_def)
      show ?thesis
        using \<open>telegram_available e\<close> l Val False st so(1) bt st2 ok3 so4
        by (cases r3; cases r4)
           (simp_all add: start_def seq_def andthen_def try_except_def get_bot_def ret_def log_def
              emit_def modify_world_def)
    qed
  next
    case Exc
    then show ?thesis using \<open>telegram_available e\<close> l ok1
      by (simp add: start_def seq_def andthen_def)
  next
    case Cancel
    then show ?thesis using \<open>telegram_available e\<close> l ok1
      by (simp add: start_def seq_def andthen_def)
  qed
qed

lemma seq_Val:
  assumes "seq m n s = (Val v, s')"
  shows "\<exists>u s1. m s = (Val u, s1) \<and> n s1 = (Val v, s')"
proof -
  obtain r s1 where m: "m s = (r, s1)" by (metis prod.collapse)
  with assms show ?thesis by (cases r) (simp_all add: seq_def andthen_def)
qed

lemma same_transport_handlers:
  "preserves same_transport (for_each handler_names (\<lambda>h. do_call e (Add_handler a h)))"
  by (intro preserves_intros preserves_prims; simp add: same_transport_def)

lemma same_transport_do_call: "preserves same_transport (do_call e c)"
  by (intro preserves_prims; simp add: same_transport_def)

lemma same_transport_log: "preserves same_transport (log l m)"
  by (intro preserves_prims; simp add: same_transport_def)

lemma application_start_Val:
  assumes "application_start e a s = (Val u, s')"
  shows "started (snd s') = started (snd s) @ [a] \<and> polling (snd s') = polling (snd s)"
  using assms
  by (auto simp: application_start_def prog_defs Let_def split: outcome.splits)

lemma start_polling_Val:
  assumes "start_polling e a s = (Val u, s')"
  shows "started (snd s') = started (snd s) \<and> polling (snd s') = polling (snd s) @ [a]"
  using assms
  by (auto simp: start_polling_def prog_defs Let_def split: outcome.splits)

lemma run_application_success:
  assumes "run_application e a s = (Val True, s')"
  shows "started (snd s') = started (snd s) @ [a] \<and> polling (snd s') = polling (snd s) @ [a]"
proof -
  from seq_Val[OF assms[unfolded run_application_def]]
  obtain u1 s1 where 1: "for_each handler_names (\<lambda>h. do_call e (Add_handler a h)) s = (Val u1, s1)"
    and r1: "seq (do_call e (Initialize a))
     (seq (application_start e a)
     (seq (start_polling e a)
     (seq (start_backup_task e)
     (seq (log Info ''Telegram bot started successfully'')
          (ret True))))) s1 = (Val True, s')" by blast
  from seq_Val[OF r1] obtain u2 s2 where 2: "do_call e (Initialize a) s1 = (Val u2, s2)"
    and r2: "seq (application_start e a)
     (seq (start_polling e a)
     (seq (start_backup_task e)
     (seq (log Info ''Telegram bot started successfully'')
          (ret True)))) s2 = (Val True, s')" by blast
  from seq_Val[OF r2] obtain u3 s3 where 3: "application_start e a s2 = (Val u3, s3)"
    and r3: "seq (start_polling e a)
     (seq (start_backup_task e)
     (seq (log Info ''Telegram bot started successfully'')
          (ret True))) s3 = (Val True, s')" by blast
  from seq_Val[OF r3] obtain u4 s4 where 4: "start_polling e a s3 = (Val u4, s4)"
    and r4: "seq (start_backup_task e)
     (seq (log Info ''Telegram bot started successfully'')
          (ret True)) s4 = (Val True, s')" by blast
  from seq_Val[OF r4] obtain u5 s5 where 5: "start_backup_task e s4 = (Val u5, s5)"
    and r5: "seq (log Info ''Telegram bot started successfully'') (ret True) s5 = (Val True, s')"
    by blast
  from seq_Val[OF r5] obtain u6 s6 where 6: "log Info ''Telegram bot started successfully'' s5 = (Val u6, s6)"
    and r6: "ret True s6 = (Val True, s')" by blast
  have e6: "s' = s6" using r6 by (simp add: ret_def)
  note t1 = preservesD[OF same_transport_handlers 1]
  note t2 = preservesD[OF same_transport_do_call 2]
  note t3 = application_start_Val[OF 3]
  note t4 = start_polling_Val[OF 4]
  note t5 = preservesD[OF same_transport_start_backup_task 5]
  note t6 = preservesD[OF same_transport_log 6]
  show ?thesis
    using t1 t2 t3 t4 t5 t6 e6 by (simp add: same_transport_def)
qed

lemma bind_success_transport:
  assumes "bind_transport e ss = (Val True, s2)"
  shows "started (snd s2) = started (snd ss) @ [fresh (snd ss)]
     \<and> polling (snd s2) = polling (snd ss) @ [fresh (snd ss)]"
proof -
  let ?c = "Build_application (get_or (bot_token (fst ss)) [])"
  let ?a = "fresh (snd ss)"
  let ?s4 = "((fst ss)\<lparr>application := Some ?a\<rparr>,
              (snd ss)\<lparr>trace := trace (snd ss) @ [?c], fresh := Suc (fresh (snd ss))\<rparr>)"
  have r: "run_application e ?a ?s4 = (Val True, s2)"
    using assms
    by (simp add: bind_transport_def prog_defs Let_def split: outcome.splits)
  from run_application_success[OF r] show ?thesis by simp
qed

lemma transport_ok_init: "transport_ok (init, world0)"
  by (simp add: transport_ok_def init_def world0_def)

lemma start_twice_transport:
  assumes "orderly e1" and "orderly e2"
  shows "transport_ok (snd (start e2 (snd (start e1 (init, world0)))))
     \<and> (fst (start e2 (snd (start e1 (init, world0)))) = Val True \<longrightarrow>
          started (snd (snd (start e2 (snd (start e1 (init, world0))))))
            = [fresh (snd (snd (stop e2 (snd (load_settings e2 (snd (start e1 (init, world0))))))))]
        \<and> polling (snd (snd (start e2 (snd (start e1 (init, world0))))))
            = [fresh (snd (snd (stop e2 (snd (load_settings e2 (snd (start e1 (init, world0))))))))])"
proof -
  let ?s1 = "snd (start e1 (init, world0))"
  let ?s2 = "snd (start e2 ?s1)"
  let ?sl = "snd (load_settings e2 ?s1)"
  let ?ss = "snd (stop e2 ?sl)"
  have ok1: "transport_ok ?s1" by (rule start_transport_ok[OF assms(1) transport_ok_init])
  have ok2: "transport_ok ?s2" by (rule start_transport_ok[OF assms(2) ok1])
  have okl: "transport_ok ?sl" by (rule load_settings_transport_ok[OF ok1])
  note so = stop_orderly[OF assms(2) okl]
  have "started (snd ?s2) = [fresh (snd ?ss)] \<and> polling (snd ?s2) = [fresh (snd ?ss)]"
    if t: "fst (start e2 ?s1) = Val True"
  proof -
    from t have "start e2 ?s1 = (Val True, ?s2)" by (metis prod.collapse)
    from start_success[OF this] have bt: "bind_transport e2 ?ss = (Val True, ?s2)" .
    from bind_success_transport[OF bt] so show ?thesis by simp
  qed
  with ok2 show ?thesis by blast
qed

lemma start_twice_updater_stop_fails:
  "fst (start env_updater_stop_fails (init, world0)) = Val True
   \<and> fst (start env_updater_stop_fails (snd (start env_updater_stop_fails (init, world0)))) = Val True
   \<and> started (snd (snd (start env_updater_stop_fails
                 (snd (start env_updater_stop_fails (init, world0)))))) = [0, 2]
   \<and> polling (snd (snd (start env_updater_stop_fails
                 (snd (start env_updater_stop_fails (init, world0)))))) = [0, 2]
   \<and> application (fst (snd (start env_updater_stop_fails
                 (snd (start env_updater_stop_fails (init, world0)))))) = Some 2"
  by (simp add: session_defs transport_defs env_updater_stop_fails_def env0_def row_on_def
      init_def world0_def prog_defs)

lemma orderly_env0: "orderly env0"
  by (simp add: orderly_def env0_def)

lemma backup_loop_step:
  "backup_loop e (Suc n) s = (case cycle e s of
      (Val u, s1) \<Rightarrow> backup_loop e n s1
    | (Exc, s1) \<Rightarrow> (Some (Val ()), logged Error ''Backup loop error'' s1)
    | (Cancel, s1) \<Rightarrow> (Some Cancel, logged Info ''Backup loop cancelled'' s1))"
proof -
  obtain r s1 where c: "cycle e s = (r, s1)" by (metis prod.collapse)
  show ?thesis
    using c by (cases r) (simp_all add: backup_loop_def logged_def log_def emit_def modify_world_def)
qed

lemma load_settings_Returns:
  "outcome_at e (length (trace (snd s))) Select_settings = Returns
   \<Longrightarrow> load_settings e s = (Val (), loaded e s)"
  by (simp add: load_settings_def loaded_def prog_defs Let_def)

lemma sleep_cases:
  "sleep e d s1 = (case outcome_at e (length (trace (snd s1))) (Sleep d) of
      Returns \<Rightarrow> (Val (), ((case overwritten_at e (length (trace (snd s1))) of
                              None \<Rightarrow> fst s1 | Some row \<Rightarrow> store_settings row (fst s1)),
                            (snd s1)\<lparr>trace := trace (snd s1) @ [Sleep d]\<rparr>))
    | Raises \<Rightarrow> (Exc, (fst s1, (snd s1)\<lparr>trace := trace (snd s1) @ [Sleep d]\<rparr>))
    | Cancels \<Rightarrow> (Cancel, (fst s1, (snd s1)\<lparr>trace := trace (snd s1) @ [Sleep d]\<rparr>)))"
  by (simp add: sleep_def prog_defs Let_def split: outcome.splits option.splits)

lemma cycle_loaded:
  assumes "outcome_at e (length (trace (snd s))) Select_settings = Returns"
  shows "cycle e s = (case sleep e (nap e s) (loaded e s) of
      (Val u, s2) \<Rightarrow>
        if \<not> backup_enabled (fst (loaded e s)) \<or> admin_ids (fst (loaded e s)) = []
           \<or> \<not> backup_enabled (fst s2)
        then (Val (), s2)
        else try_except (backup_and_dispatch e) (log Error ''Error in automatic backup'') s2
    | (Exc, s2) \<Rightarrow> (Exc, s2)
    | (Cancel, s2) \<Rightarrow> (Cancel, s2))"
proof -
  obtain r s2 where sl: "sleep e (nap e s) (loaded e s) = (r, s2)" by (metis prod.collapse)
  show ?thesis
    using load_settings_Returns[OF assms] sl
    by (cases r)
       (auto simp: cycle_def seq_def andthen_def get_bot_def ret_def nap_def)
qed

lemma sleep_loaded:
  "sleep e (nap e s) (loaded e s) =
     (case outcome_at e (Suc (length (trace (snd s)))) (Sleep (nap e s)) of
        Returns \<Rightarrow> (Val (), woken e s)
      | Raises \<Rightarrow> (Exc, (fst (loaded e s),
                          (snd s)\<lparr>trace := trace (snd s) @ [Select_settings, Sleep (nap e s)]\<rparr>))
      | Cancels \<Rightarrow> (Cancel, (fst (loaded e s),
                          (snd s)\<lparr>trace := trace (snd s) @ [Select_settings, Sleep (nap e s)]\<rparr>)))"
  by (simp add: sleep_cases loaded_def woken_def split: outcome.splits option.splits)

lemma loop_sleep_raises:
  assumes "outcome_at e (length (trace (snd s))) Select_settings = Returns"
    and "outcome_at e (Suc (length (trace (snd s)))) (Sleep (nap e s)) = Raises"
  shows "backup_loop e (Suc n) s = (Some (Val ()),
     (fst (loaded e s), (snd s)\<lparr>trace := trace (snd s)
         @ [Select_settings, Sleep (nap e s), Log Error ''Backup loop error'']\<rparr>))"
  using assms
  by (simp add: backup_loop_step cycle_loaded sleep_loaded logged_def)

lemma loop_sleep_cancelled:
  assumes "outcome_at e (length (trace (snd s))) Select_settings = Returns"
    and "outcome_at e (Suc (length (trace (snd s)))) (Sleep (nap e s)) = Cancels"
  shows "backup_loop e (Suc n) s = (Some Cancel,
     (fst (loaded e s), (snd s)\<lparr>trace := trace (snd s)
         @ [Select_settings, Sleep (nap e s), Log Info ''Backup loop cancelled'']\<rparr>))"
  using assms
  by (simp add: backup_loop_step cycle_loaded sleep_loaded logged_def)

lemma loop_skips:
  assumes "outcome_at e (length (trace (snd s))) Select_settings = Returns"
    and "outcome_at e (Suc (length (trace (snd s)))) (Sleep (nap e s)) = Returns"
    and "\<not> backup_enabled (fst (loaded e s)) \<or> admin_ids (fst (loaded e s)) = []
           \<or> \<not> backup_enabled (fst (woken e s))"
  shows "backup_loop e (Suc n) s = backup_loop e n (woken e s)"
  using assms
  by (auto simp: backup_loop_step cycle_loaded sleep_loaded)

lemma loop_backup:
  assumes "outcome_at e (length (trace (snd s))) Select_settings = Returns"
    and "outcome_at e (Suc (length (trace (snd s)))) (Sleep (nap e s)) = Returns"
    and "backup_enabled (fst (loaded e s))" and "admin_ids (fst (loaded e s)) \<noteq> []"
    and "backup_enabled (fst (woken e s))"
  shows "(backup_and_dispatch e (woken e s) = (Exc, s3) \<longrightarrow>
            backup_loop e (Suc n) s = backup_loop e n (logged Error ''Error in automatic backup'' s3))
     \<and> (backup_and_dispatch e (woken e s) = (Val (), s3) \<longrightarrow>
            backup_loop e (Suc n) s = backup_loop e n s3)
     \<and> (backup_and_dispatch e (woken e s) = (Cancel, s3) \<longrightarrow>
            backup_loop e (Suc n) s = (Some Cancel, logged Info ''Backup loop cancelled'' s3))"
  using assms
  by (simp add: backup_loop_step cycle_loaded sleep_loaded try_except_def logged_def log_def
      emit_def modify_world_def)

lemma env_send_fails_simps:
  "outcome_at env_send_fails k c =
     (case c of Send_document _ _ _ \<Rightarrow> Raises | Remove_file _ \<Rightarrow> Raises | _ \<Rightarrow> Returns)"
  "settings_row_at env_send_fails k = Some row_on"
  "overwritten_at env_send_fails k = None"
  "bot_attr_at env_send_fails k"
  "int_of env_send_fails = sample_int"
  "path_exists_at env_send_fails k p = False"
  "timestamp_at env_send_fails k = ''20240101_000000''"
  by (simp_all add: env_send_fails_def env0_def)

lemmas backup_defs = create_backup_def stage_and_compress_def stage_sources_def make_staging_def
  copy_if_exists_def copytree_if_exists_def copy_cert_def copy_data_def write_archive_def
  stage_def remove_file_def staging_dir_def get_or_def Let_def

lemma woken_sample:
  "woken env_send_fails bound_session =
     (init\<lparr>application := Some 0, enabled := True, bot_token := Some ''123:abc'',
           admin_ids := [''1'', ''2'', ''3''], backup_enabled := True, backup_interval := 2,
           backup_interval_unit := ''hours''\<rparr>,
      world0\<lparr>fresh := 1, started := [0], polling := [0],
             trace := [Select_settings, Sleep 7200]\<rparr>)"
  by (simp add: woken_def nap_def loaded_def env_send_fails_simps store_settings_def row_on_def
      get_or_def sleep_seconds_def bound_session_def world0_def init_def)

lemma dispatch_fails_sample:
  "backup_and_dispatch env_send_fails (woken env_send_fails bound_session) =
     (Exc,
      (init\<lparr>application := Some 0, enabled := True, bot_token := Some ''123:abc'',
           admin_ids := [''1'', ''2'', ''3''], backup_enabled := True, backup_interval := 2,
           backup_interval_unit := ''hours''\<rparr>,
       world0\<lparr>fresh := 1, started := [0], polling := [0], tmp_files := [sample_archive],
             trace := [Select_settings, Sleep 7200, Create_backup, Mkdir ''/tmp/smite_backup'',
               Zip_open sample_archive, Zip_write sample_archive, Rmtree ''/tmp/smite_backup'',
               Open_file sample_archive, Send_document 0 1 sample_archive,
               Log Error ''Failed to send backup to admin 1'',
               Open_file sample_archive, Send_document 0 2 sample_archive,
               Log Error ''Failed to send backup to admin 2'',
               Open_file sample_archive, Send_document 0 3 sample_archive,
               Log Error ''Failed to send backup to admin 3'',
               Remove_file sample_archive]\<rparr>))"
  unfolding woken_sample
  by (simp add: backup_and_dispatch_def dispatch_backup_def send_backup_def backup_defs prog_defs
      env_send_fails_simps sample_int_def sample_archive_def world0_def init_def)

section \<open>Facts about the producer and the dispatch\<close>

lemma reflp_keeps_staging [simp]: "reflp keeps_staging"
  by (simp add: reflp_def keeps_staging_def)

lemma transp_keeps_staging [simp]: "transp keeps_staging"
  by (simp add: transp_def keeps_staging_def)




























section \<open>Interval computation\<close>

text \<open>
  Claim C9. The sleep duration is \<open>backup_interval * 3600\<close> for the unit \<^verbatim>\<open>hours\<close> and
  \<open>backup_interval * 60\<close> for the unit \<^verbatim>\<open>minutes\<close>: 2 hours are 7200 seconds, 30 minutes are
  1800 seconds; and a pass of the loop whose freshly loaded settings enable the backup and name
  an administrator sleeps exactly that long right after loading.
\<close>

theorem sleep_duration_hours_minutes:
  "sleep_seconds (b\<lparr>backup_interval_unit := ''hours''\<rparr>) = backup_interval b * 3600 \<and>
   sleep_seconds (b\<lparr>backup_interval_unit := ''minutes''\<rparr>) = backup_interval b * 60 \<and>
   sleep_seconds (b\<lparr>backup_interval := 2, backup_interval_unit := ''hours''\<rparr>) = 7200 \<and>
   sleep_seconds (b\<lparr>backup_interval := 30, backup_interval_unit := ''minutes''\<rparr>) = 1800 \<and>
   (outcome_at e (length (trace (snd s))) Select_settings = Returns \<and>
    row_backup_enabled (settings_row_at e (length (trace (snd s)))) \<and>
    row_admin_ids (settings_row_at e (length (trace (snd s)))) \<noteq> [] \<longrightarrow>
    take 2 (events_since s (snd (cycle e s))) =
      [Select_settings,
       Sleep (sleep_seconds (store_settings (settings_row_at e (length (trace (snd s)))) (fst s)))])"
  using cycle_sleeps[of e s] by (simp add: sleep_seconds_def)

theorem sleep_duration_hours_minutes_witness:
  "take 2 (events_since (init, world0) (snd (cycle env0 (init, world0)))) =
     [Select_settings, Sleep 7200]"
  using sleep_duration_hours_minutes[of init env0 "(init, world0)"]
  by (simp add: env0_def world0_def row_on_def row_backup_enabled_def row_admin_ids_def
      get_or_def store_settings_def sleep_seconds_def)

text \<open>
  Claim C10. Every unit string other than \<^verbatim>\<open>hours\<close> is treated as minutes: the duration is
  \<open>backup_interval * 60\<close>, the computation is a total function of the unit string, and the
  loop sleeps that long.
\<close>

theorem sleep_duration_other_units:
  "(backup_interval_unit b \<noteq> ''hours'' \<longrightarrow> sleep_seconds b = backup_interval b * 60) \<and>
   (outcome_at e (length (trace (snd s))) Select_settings = Returns \<and>
    row_backup_enabled (settings_row_at e (length (trace (snd s)))) \<and>
    row_admin_ids (settings_row_at e (length (trace (snd s)))) \<noteq> [] \<and>
    backup_interval_unit (store_settings (settings_row_at e (length (trace (snd s)))) (fst s))
      \<noteq> ''hours'' \<longrightarrow>
    take 2 (events_since s (snd (cycle e s))) =
      [Select_settings,
       Sleep (backup_interval (store_settings (settings_row_at e (length (trace (snd s)))) (fst s))
              * 60)])"
  using cycle_sleeps[of e s] by (simp add: sleep_seconds_def)

theorem sleep_duration_other_units_witness:
  "sleep_seconds (init\<lparr>backup_interval := 5, backup_interval_unit := ''fortnights''\<rparr>) = 300 \<and>
   take 2 (events_since (init, world0)
     (snd (cycle (env0\<lparr>settings_row_at :=
             (\<lambda>k. Some (row_on\<lparr>v_backup_interval_unit := Some ''fortnights''\<rparr>))\<rparr>)
           (init, world0)))) = [Select_settings, Sleep 120]"
  using sleep_duration_other_units[of
      "init\<lparr>backup_interval := 5, backup_interval_unit := ''fortnights''\<rparr>"
      "env0\<lparr>settings_row_at :=
             (\<lambda>k. Some (row_on\<lparr>v_backup_interval_unit := Some ''fortnights''\<rparr>))\<rparr>"
      "(init, world0)"]
  by (simp add: env0_def world0_def row_on_def row_backup_enabled_def row_admin_ids_def
      get_or_def store_settings_def)

section \<open>Scheduler: the fallback branch\<close>



section \<open>Session start\<close>

text \<open>
  Claim C8. When the freshly loaded settings have \<open>enabled\<close> false, or the token is missing
  or empty, \<^verbatim>\<open>start\<close> returns \<open>False\<close>; it builds no application and creates no task: its
  only events are the load and one log line, and the application handle, the task handle and
  the live tasks are what they were.
\<close>

theorem start_refuses_when_disabled:
  "telegram_available e \<and>
   outcome_at e (length (trace (snd s))) Select_settings = Returns \<and>
   (\<not> enabled (store_settings (settings_row_at e (length (trace (snd s)))) (fst s))
    \<or> \<not> token_set (store_settings (settings_row_at e (length (trace (snd s)))) (fst s))) \<longrightarrow>
   fst (start e s) = Val False
     \<and> events_since s (snd (start e s)) =
         [Select_settings, Log Info ''Telegram bot not enabled or token not set'']
     \<and> application (fst (snd (start e s))) = application (fst s)
     \<and> backup_task (fst (snd (start e s))) = backup_task (fst s)
     \<and> live_tasks (snd (snd (start e s))) = live_tasks (snd s)"
  using start_disabled[of e s] by blast

theorem start_refuses_when_disabled_witness:
  "fst (start (env0\<lparr>settings_row_at := (\<lambda>k. Some (row_on\<lparr>v_enabled := Some False\<rparr>))\<rparr>)
         (init, world0)) = Val False
   \<and> events_since (init, world0)
       (snd (start (env0\<lparr>settings_row_at := (\<lambda>k. Some (row_on\<lparr>v_enabled := Some False\<rparr>))\<rparr>)
         (init, world0))) =
       [Select_settings, Log Info ''Telegram bot not enabled or token not set'']"
  using start_refuses_when_disabled[of
      "env0\<lparr>settings_row_at := (\<lambda>k. Some (row_on\<lparr>v_enabled := Some False\<rparr>))\<rparr>" "(init, world0)"]
  by (simp add: env0_def world0_def row_on_def store_settings_def get_or_def)

text \<open>
  Claim C5, as stated, fails: \<^verbatim>\<open>stop\<close> swallows an exception of the teardown and clears
  the handle, so a restart goes on although the first application was never stopped. Here
  \<^verbatim>\<open>updater.stop()\<close> raises: both calls of \<^verbatim>\<open>start\<close> return \<open>True\<close>, the first
  application never receives \<^verbatim>\<open>stop()\<close> or \<^verbatim>\<open>shutdown()\<close>, and afterwards two
  applications are started and polling, of which the session holds the second.
\<close>

theorem start_twice_leaves_first_application_running:
  "fst (start env_updater_stop_fails (init, world0)) = Val True
   \<and> fst (start env_updater_stop_fails (snd (start env_updater_stop_fails (init, world0)))) = Val True
   \<and> started (snd (snd (start env_updater_stop_fails
                 (snd (start env_updater_stop_fails (init, world0)))))) = [0, 2]
   \<and> polling (snd (snd (start env_updater_stop_fails
                 (snd (start env_updater_stop_fails (init, world0)))))) = [0, 2]
   \<and> application (fst (snd (start env_updater_stop_fails
                 (snd (start env_updater_stop_fails (init, world0)))))) = Some 2"
  by (simp add: session_defs transport_defs env_updater_stop_fails_def env0_def row_on_def
      init_def world0_def prog_defs)

text \<open>
  Claim C5, amended. Starting twice in succession, from a new object: after each call at most
  one scheduler task is alive, and it is the one the session holds. When the second call
  returns \<open>True\<close>, it has first run \<^verbatim>\<open>stop\<close> on the state left by the first call, which
  leaves no application handle, no task handle and no live task; the transport is bound from
  that state, the session then holds the application object built by this call, and the call
  built exactly one application. When every teardown call returns (and the updater reports
  that it runs), no transport is bound besides the application the session holds: every
  started application and every polling updater is that one, after the first call and after
  the second, whatever they return; and when the second call returns \<open>True\<close>, exactly the
  application it built is started and polling.
\<close>

theorem start_twice_single_session:
  "length (live_tasks (snd (snd (start e1 (init, world0))))) \<le> 1
   \<and> length (live_tasks (snd (snd (start e2 (snd (start e1 (init, world0))))))) \<le> 1
   \<and> set (live_tasks (snd (snd (start e2 (snd (start e1 (init, world0)))))))
        \<subseteq> set_option (backup_task (fst (snd (start e2 (snd (start e1 (init, world0)))))))
   \<and> (fst (start e2 (snd (start e1 (init, world0)))) = Val True \<longrightarrow>
        stopped (snd (stop e2 (snd (load_settings e2 (snd (start e1 (init, world0)))))))
      \<and> bind_transport e2 (snd (stop e2 (snd (load_settings e2 (snd (start e1 (init, world0)))))))
          = (Val True, snd (start e2 (snd (start e1 (init, world0)))))
      \<and> application (fst (snd (start e2 (snd (start e1 (init, world0))))))
          = Some (fresh (snd (snd (stop e2 (snd (load_settings e2 (snd (start e1 (init, world0)))))))))
      \<and> length (filter is_build (events_since (snd (start e1 (init, world0)))
                                  (snd (start e2 (snd (start e1 (init, world0))))))) = 1)
   \<and> (orderly e1 \<longrightarrow> transport_ok (snd (start e1 (init, world0))))
   \<and> (orderly e1 \<and> orderly e2 \<longrightarrow>
        transport_ok (snd (start e2 (snd (start e1 (init, world0)))))
      \<and> (fst (start e2 (snd (start e1 (init, world0)))) = Val True \<longrightarrow>
            started (snd (snd (start e2 (snd (start e1 (init, world0))))))
              = [fresh (snd (snd (stop e2 (snd (load_settings e2 (snd (start e1 (init, world0))))))))]
          \<and> polling (snd (snd (start e2 (snd (start e1 (init, world0))))))
              = [fresh (snd (snd (stop e2 (snd (load_settings e2 (snd (start e1 (init, world0))))))))]))"
  using start_twice[of e1 e2] start_twice_transport[of e1 e2]
    start_transport_ok[OF _ transport_ok_init, of e1]
  by (simp add: stopped_def)

theorem start_twice_single_session_witness:
  "fst (start env0 (snd (start env0 (init, world0)))) = Val True
   \<and> stopped (snd (stop env0 (snd (load_settings env0 (snd (start env0 (init, world0)))))))
   \<and> length (filter is_build (events_since (snd (start env0 (init, world0)))
                                  (snd (start env0 (snd (start env0 (init, world0))))))) = 1
   \<and> length (live_tasks (snd (snd (start env0 (snd (start env0 (init, world0))))))) \<le> 1
   \<and> started (snd (snd (start env0 (snd (start env0 (init, world0)))))) = [2]
   \<and> polling (snd (snd (start env0 (snd (start env0 (init, world0)))))) = [2]
   \<and> application (fst (snd (start env0 (snd (start env0 (init, world0)))))) = Some 2"
  using start_twice_single_session[of env0 env0] start_env0_twice orderly_env0
    fresh_after_restart_env0
  by simp

section \<open>Session stop\<close>

text \<open>
  Claim C4. \<^verbatim>\<open>stop\<close> never raises an exception: an exception of the teardown is caught
  and logged as a warning, and \<^verbatim>\<open>stop\<close> returns. Whatever the teardown did, the
  application handle and the task handle are cleared afterwards, and the task the session held
  is no longer alive. The calls come in this order: cancel and await the task, then
  \<^verbatim>\<open>updater.stop\<close> exactly when the updater runs, \<^verbatim>\<open>application.stop\<close>,
  \<^verbatim>\<open>application.shutdown\<close>, up to and including the first of them that does not return,
  and all of them when the teardown succeeds; the events of \<^verbatim>\<open>stop\<close> are exactly these
  calls and its log lines, and it ends with the cancellation only when a teardown call was
  the point of a cancellation. A second \<^verbatim>\<open>stop\<close> returns at once and changes nothing.
\<close>

theorem stop_orderly_idempotent:
  "fst (stop e s) \<noteq> Exc \<and>
   (application (fst s) = Some a \<and> fst (teardown e a (snd (stop_backup_task s))) = Exc \<longrightarrow>
      fst (stop e s) = Val ()
      \<and> Log Warning ''Error stopping Telegram bot'' \<in> set (events_since s (snd (stop e s)))) \<and>
   application (fst (snd (stop e s))) = None \<and>
   backup_task (fst (snd (stop e s))) = None \<and>
   (backup_task (fst s) = Some t \<longrightarrow> t \<notin> set (live_tasks (snd (snd (stop e s))))) \<and>
   (\<exists>tear. filter (\<lambda>c. \<not> is_log c) (events_since s (snd (stop e s))) = task_calls (fst s) @ tear \<and>
     (case application (fst s) of
        None \<Rightarrow> tear = []
      | Some a \<Rightarrow> tear \<noteq> []
          \<and> tear = attempted e (length (trace (snd (snd (stop_backup_task s)))))
                     (teardown_calls e (length (trace (snd (snd (stop_backup_task s))))) a)
          \<and> (prefix tear [Updater_stop a, Stop_application a, Shutdown a]
             \<or> prefix tear [Stop_application a, Shutdown a])
          \<and> (fst (teardown e a (snd (stop_backup_task s))) = Val () \<longrightarrow>
               tear = [Updater_stop a, Stop_application a, Shutdown a]
             \<or> tear = [Stop_application a, Shutdown a]))) \<and>
   events_since s (snd (stop e s)) =
     (case backup_task (fst s) of
        None \<Rightarrow> []
      | Some t \<Rightarrow> [Cancel_task t, Await_task t, Log Info ''Automatic backup task stopped''])
     @ (case application (fst s) of
          None \<Rightarrow> []
        | Some a \<Rightarrow>
            attempted e (length (trace (snd (snd (stop_backup_task s)))))
              (teardown_calls e (length (trace (snd (snd (stop_backup_task s))))) a)
            @ (if ending e (length (trace (snd (snd (stop_backup_task s)))))
                    (teardown_calls e (length (trace (snd (snd (stop_backup_task s))))) a) = Raises
               then [Log Warning ''Error stopping Telegram bot''] else [])
            @ [Log Info ''Telegram bot stopped'']) \<and>
   fst (stop e s) =
     (case application (fst s) of
        None \<Rightarrow> Val ()
      | Some a \<Rightarrow>
          if ending e (length (trace (snd (snd (stop_backup_task s)))))
               (teardown_calls e (length (trace (snd (snd (stop_backup_task s))))) a) = Cancels
          then Cancel else Val ()) \<and>
   stop e' (snd (stop e s)) = (Val (), snd (stop e s))"
  using stop_not_exc[of e s] stop_swallows[of s a e] stop_clears[of e s]
    stop_task_finished[of s t e] stop_order_exact[of s e] stop_twice[of e' e s]
    stop_events_exact[of s e] stop_result_exact[of e s]
  by blast

theorem stop_orderly_idempotent_witness:
  "fst (stop env_stop_fails running_session) = Val ()
   \<and> Log Warning ''Error stopping Telegram bot''
        \<in> set (events_since running_session (snd (stop env_stop_fails running_session)))
   \<and> application (fst (snd (stop env_stop_fails running_session))) = None
   \<and> 0 \<notin> set (live_tasks (snd (snd (stop env_stop_fails running_session))))
   \<and> events_since running_session (snd (stop env_stop_fails running_session)) =
        [Cancel_task 0, Await_task 0, Log Info ''Automatic backup task stopped'',
         Updater_stop 1, Stop_application 1,
         Log Warning ''Error stopping Telegram bot'', Log Info ''Telegram bot stopped'']"
  using stop_orderly_idempotent[of env_stop_fails running_session 1 0 env0]
  by (simp add: env_stop_fails_def running_session_def env0_def init_def world0_def
      teardown_def transport_defs teardown_calls_def stop_backup_task_def await_task_def prog_defs)

section \<open>Authorization of the entry points\<close>

text \<open>
  Claim C6. Every command handler and the callback handler test \<^verbatim>\<open>is_admin\<close> on the
  requesting user before anything else that touches the repository or the producer: for a
  user who is not an administrator the handler makes no repository read and no producer call,
  and all it does is reply with the denial (the callback handler answers the query first, and
  edits the message to the denial when that answer returned); the session is left as it was.
\<close>

theorem unauthorized_requests_are_denied:
  "\<not> is_admin (fst s) user_id \<longrightarrow>
     (\<forall>c\<in>set (events_since s (snd (handle e en user_id s))).
          \<not> is_repository_call c \<and> \<not> is_producer_call c)
   \<and> (case en of
         Callback d \<Rightarrow>
           events_since s (snd (handle e en user_id s)) = [Answer_query, Edit_message Access_denied]
         \<or> (events_since s (snd (handle e en user_id s)) = [Answer_query]
             \<and> outcome_at e (length (trace (snd s))) Answer_query \<noteq> Returns)
       | _ \<Rightarrow> events_since s (snd (handle e en user_id s)) = [Reply_text Access_denied])
   \<and> same_session s (snd (handle e en user_id s))"
  using handle_denied[of s user_id e en] by blast

theorem unauthorized_requests_are_denied_witness:
  "events_since (init\<lparr>admin_ids := [''1'', ''2'']\<rparr>, world0)
     (snd (handle env0 Cmd_backup 7 (init\<lparr>admin_ids := [''1'', ''2'']\<rparr>, world0)))
     = [Reply_text Access_denied]
   \<and> events_since (init\<lparr>admin_ids := [''1'', ''2'']\<rparr>, world0)
     (snd (handle env0 (Callback ''cmd_backup'') 7 (init\<lparr>admin_ids := [''1'', ''2'']\<rparr>, world0)))
     = [Answer_query, Edit_message Access_denied]"
proof -
  have guest: "\<not> is_admin (fst (init\<lparr>admin_ids := [''1'', ''2'']\<rparr>, world0)) 7"
    by code_simp
  show ?thesis
    using guest
      unauthorized_requests_are_denied[of "(init\<lparr>admin_ids := [''1'', ''2'']\<rparr>, world0)" 7 env0
        Cmd_backup]
      unauthorized_requests_are_denied[of "(init\<lparr>admin_ids := [''1'', ''2'']\<rparr>, world0)" 7 env0
        "Callback ''cmd_backup''"]
    by (simp add: env0_def)
qed

section \<open>Scheduler: failures inside a pass\<close>

text \<open>
  Claim C1, as stated, fails: the settings are loaded inside the loop but outside the inner
  \<^verbatim>\<open>try\<close>, so an exception of the database read reaches the handler around the loop, which
  logs it and lets the coroutine return. Here the first read fails and the loop is over after
  it, with nobody having cancelled the task.
\<close>

theorem backup_loop_ends_on_settings_failure:
  "backup_loop env_db_down 3 (init, world0) =
     (Some (Val ()), (init, world0\<lparr>trace := [Select_settings, Log Error ''Backup loop error'']\<rparr>))"
  by (simp add: numeral_3_eq_3 backup_loop_def cycle_def load_settings_def seq_def andthen_def
      perform_def Let_def log_def emit_def modify_world_def env_db_down_def env0_def world0_def)

text \<open>
  Claim C1, amended. An exception raised while the backup is produced or dispatched is caught
  inside the pass, logged, and the loop goes on with the next pass; as long as no settings
  read and no sleep raises and nobody cancels, the loop is still running after any number of
  passes. An exception of the settings read or of the sleep is caught and logged by the
  handler around the loop, and the coroutine returns. A cancellation, at the settings read, at
  the sleep or inside the backup, is logged and raised again. A pass that sleeps and finds
  nothing to do, and a pass whose backup returns, are followed by the next pass.
\<close>

theorem backup_loop_survives_backup_failures:
  "(calm e \<and> (\<forall>k. outcome_at e k Select_settings \<noteq> Raises)
      \<and> (\<forall>k d. outcome_at e k (Sleep d) \<noteq> Raises) \<longrightarrow>
      fst (backup_loop e n s) = None) \<and>
   (backup_and_dispatch e s = (Exc, s') \<longrightarrow>
      try_except (backup_and_dispatch e) (log Error ''Error in automatic backup'') s =
        (Val (), (fst s', (snd s')\<lparr>trace := trace (snd s')
                                      @ [Log Error ''Error in automatic backup'']\<rparr>))) \<and>
   (outcome_at e (length (trace (snd s))) Select_settings = Raises \<longrightarrow>
      backup_loop e (Suc n) s = (Some (Val ()),
        (fst s, (snd s)\<lparr>trace := trace (snd s)
                          @ [Select_settings, Log Error ''Backup loop error'']\<rparr>))) \<and>
   (outcome_at e (length (trace (snd s))) Select_settings = Cancels \<longrightarrow>
      backup_loop e (Suc n) s = (Some Cancel,
        (fst s, (snd s)\<lparr>trace := trace (snd s)
                          @ [Select_settings, Log Info ''Backup loop cancelled'']\<rparr>))) \<and>
   (outcome_at e (length (trace (snd s))) Select_settings = Returns \<and>
    outcome_at e (Suc (length (trace (snd s)))) (Sleep (nap e s)) = Raises \<longrightarrow>
      backup_loop e (Suc n) s = (Some (Val ()),
        (fst (loaded e s), (snd s)\<lparr>trace := trace (snd s)
            @ [Select_settings, Sleep (nap e s), Log Error ''Backup loop error'']\<rparr>))) \<and>
   (outcome_at e (length (trace (snd s))) Select_settings = Returns \<and>
    outcome_at e (Suc (length (trace (snd s)))) (Sleep (nap e s)) = Cancels \<longrightarrow>
      backup_loop e (Suc n) s = (Some Cancel,
        (fst (loaded e s), (snd s)\<lparr>trace := trace (snd s)
            @ [Select_settings, Sleep (nap e s), Log Info ''Backup loop cancelled'']\<rparr>))) \<and>
   (outcome_at e (length (trace (snd s))) Select_settings = Returns \<and>
    outcome_at e (Suc (length (trace (snd s)))) (Sleep (nap e s)) = Returns \<and>
    (\<not> backup_enabled (fst (loaded e s)) \<or> admin_ids (fst (loaded e s)) = []
       \<or> \<not> backup_enabled (fst (woken e s))) \<longrightarrow>
      backup_loop e (Suc n) s = backup_loop e n (woken e s)) \<and>
   (outcome_at e (length (trace (snd s))) Select_settings = Returns \<and>
    outcome_at e (Suc (length (trace (snd s)))) (Sleep (nap e s)) = Returns \<and>
    backup_enabled (fst (loaded e s)) \<and> admin_ids (fst (loaded e s)) \<noteq> [] \<and>
    backup_enabled (fst (woken e s)) \<longrightarrow>
      (backup_and_dispatch e (woken e s) = (Exc, u) \<longrightarrow>
         backup_loop e (Suc n) s = backup_loop e n (logged Error ''Error in automatic backup'' u))
    \<and> (backup_and_dispatch e (woken e s) = (Val (), u) \<longrightarrow>
         backup_loop e (Suc n) s = backup_loop e n u)
    \<and> (backup_and_dispatch e (woken e s) = (Cancel, u) \<longrightarrow>
         backup_loop e (Suc n) s = (Some Cancel, logged Info ''Backup loop cancelled'' u)))"
  using backup_loop_goes_on[of e n s] guarded_backup_catches[of e s s']
    backup_loop_settings_failure[of e s n] backup_loop_cancelled[of e s n]
    loop_sleep_raises[of e s n] loop_sleep_cancelled[of e s n] loop_skips[of e s n]
    loop_backup[of e s u n]
  by blast

theorem backup_loop_survives_backup_failures_witness:
  "fst (backup_loop env_send_fails 4 bound_session) = None
   \<and> backup_loop env_send_fails (Suc 0) bound_session =
       (None,
        (init\<lparr>application := Some 0, enabled := True, bot_token := Some ''123:abc'',
              admin_ids := [''1'', ''2'', ''3''], backup_enabled := True, backup_interval := 2,
              backup_interval_unit := ''hours''\<rparr>,
         world0\<lparr>fresh := 1, started := [0], polling := [0], tmp_files := [sample_archive],
             trace := [Select_settings, Sleep 7200, Create_backup, Mkdir ''/tmp/smite_backup'',
               Zip_open sample_archive, Zip_write sample_archive, Rmtree ''/tmp/smite_backup'',
               Open_file sample_archive, Send_document 0 1 sample_archive,
               Log Error ''Failed to send backup to admin 1'',
               Open_file sample_archive, Send_document 0 2 sample_archive,
               Log Error ''Failed to send backup to admin 2'',
               Open_file sample_archive, Send_document 0 3 sample_archive,
               Log Error ''Failed to send backup to admin 3'',
               Remove_file sample_archive, Log Error ''Error in automatic backup'']\<rparr>))
   \<and> fst (backup_loop env_sleep_fails (Suc 3) bound_session) = Some (Val ())
   \<and> trace (snd (snd (backup_loop env_sleep_fails (Suc 3) bound_session))) =
        [Select_settings, Sleep 7200, Log Error ''Backup loop error'']
   \<and> fst (backup_loop env_sleep_cancelled (Suc 3) bound_session) = Some Cancel
   \<and> trace (snd (snd (backup_loop env_sleep_cancelled (Suc 3) bound_session))) =
        [Select_settings, Sleep 7200, Log Info ''Backup loop cancelled'']"
proof -
  have c: "calm env_send_fails"
    by (simp add: calm_def env_send_fails_simps split: call.splits)
  have r: "\<forall>k. outcome_at env_send_fails k Select_settings \<noteq> Raises"
    "\<forall>k d. outcome_at env_send_fails k (Sleep d) \<noteq> Raises"
    by (simp_all add: env_send_fails_simps)
  have l: "backup_enabled (fst (loaded env_send_fails bound_session))"
    "admin_ids (fst (loaded env_send_fails bound_session)) \<noteq> []"
    "backup_enabled (fst (woken env_send_fails bound_session))"
    by (simp_all add: woken_sample loaded_def env_send_fails_simps row_backup_enabled_def
        row_admin_ids_def row_on_def get_or_def)
  have first: "fst (backup_loop env_send_fails 4 bound_session) = None"
    using c r backup_loop_survives_backup_failures[of env_send_fails 4 bound_session]
    by simp
  have second: "backup_loop env_send_fails (Suc 0) bound_session =
       (None,
        (init\<lparr>application := Some 0, enabled := True, bot_token := Some ''123:abc'',
              admin_ids := [''1'', ''2'', ''3''], backup_enabled := True, backup_interval := 2,
              backup_interval_unit := ''hours''\<rparr>,
         world0\<lparr>fresh := 1, started := [0], polling := [0], tmp_files := [sample_archive],
             trace := [Select_settings, Sleep 7200, Create_backup, Mkdir ''/tmp/smite_backup'',
               Zip_open sample_archive, Zip_write sample_archive, Rmtree ''/tmp/smite_backup'',
               Open_file sample_archive, Send_document 0 1 sample_archive,
               Log Error ''Failed to send backup to admin 1'',
               Open_file sample_archive, Send_document 0 2 sample_archive,
               Log Error ''Failed to send backup to admin 2'',
               Open_file sample_archive, Send_document 0 3 sample_archive,
               Log Error ''Failed to send backup to admin 3'',
               Remove_file sample_archive, Log Error ''Error in automatic backup'']\<rparr>))"
    using l dispatch_fails_sample
      backup_loop_survives_backup_failures[of env_send_fails 0 bound_session _
        "snd (backup_and_dispatch env_send_fails (woken env_send_fails bound_session))"]
    by (simp add: env_send_fails_simps logged_def backup_loop_def world0_def)
  have n: "nap env_sleep_fails bound_session = 7200" "nap env_sleep_cancelled bound_session = 7200"
    by (simp_all add: nap_def loaded_def env_sleep_fails_def env_sleep_cancelled_def env0_def
        store_settings_def row_on_def get_or_def sleep_seconds_def)
  have third: "fst (backup_loop env_sleep_fails (Suc 3) bound_session) = Some (Val ())
      \<and> trace (snd (snd (backup_loop env_sleep_fails (Suc 3) bound_session))) =
        [Select_settings, Sleep 7200, Log Error ''Backup loop error'']"
    using backup_loop_survives_backup_failures[of env_sleep_fails 3 bound_session]
    by (simp add: n) (simp add: env_sleep_fails_def env0_def bound_session_def world0_def)
  have fourth: "fst (backup_loop env_sleep_cancelled (Suc 3) bound_session) = Some Cancel
      \<and> trace (snd (snd (backup_loop env_sleep_cancelled (Suc 3) bound_session))) =
        [Select_settings, Sleep 7200, Log Info ''Backup loop cancelled'']"
    using backup_loop_survives_backup_failures[of env_sleep_cancelled 3 bound_session]
    by (simp add: n) (simp add: env_sleep_cancelled_def env0_def bound_session_def world0_def)
  from first second third fourth show ?thesis by blast
qed

section \<open>Backup producer: the staging directory\<close>




section \<open>Dispatch of the archive\<close>




end
